theory Spec2Isabelle
  imports Complex_Main
begin

text \<open>A shallow embedding of the Choco interpreter (\<^verbatim>\<open>src/main.cpp\<close>): the lexer, the values,
  the interpreter state and the evaluator of statements and expressions that works on the
  flat token vector with one cursor, followed by the properties of the specification that
  the code has, and the runs on which it departs from the specification.\<close>

section \<open>Tokens\<close>

text \<open>The token kinds of \<^verbatim>\<open>enum TokenType\<close>, in the order of the source.\<close>

datatype TokenType =
    TOKEN_EOF | TOKEN_NUMBER | TOKEN_STRING | TOKEN_IDENTIFIER
  | TOKEN_LET | TOKEN_FN | TOKEN_IF | TOKEN_ELSE | TOKEN_WHILE | TOKEN_FOR | TOKEN_IN
  | TOKEN_RETURN | TOKEN_PUTS | TOKEN_TRUE | TOKEN_FALSE
  | TOKEN_PLUS | TOKEN_MINUS | TOKEN_STAR | TOKEN_SLASH | TOKEN_PERCENT
  | TOKEN_EQUAL | TOKEN_EQUAL_EQUAL | TOKEN_BANG_EQUAL
  | TOKEN_LESS | TOKEN_GREATER | TOKEN_LESS_EQUAL | TOKEN_GREATER_EQUAL
  | TOKEN_AND | TOKEN_OR | TOKEN_BANG
  | TOKEN_LPAREN | TOKEN_RPAREN | TOKEN_LBRACE | TOKEN_RBRACE | TOKEN_LBRACKET | TOKEN_RBRACKET
  | TOKEN_COMMA | TOKEN_SEMICOLON | TOKEN_ARROW | TOKEN_DOT | TOKEN_DOTDOT | TOKEN_COLON

text \<open>\<^verbatim>\<open>struct Token { TokenType type; std::string value; int line; }\<close>. The field
  names carry a prefix because \<^verbatim>\<open>type\<close> and \<^verbatim>\<open>value\<close> are reserved words here.\<close>

record Token =
  tok_type :: TokenType
  tok_value :: string
  tok_line :: int

definition mkToken :: "TokenType \<Rightarrow> string \<Rightarrow> int \<Rightarrow> Token" where
  "mkToken ty v l = \<lparr>tok_type = ty, tok_value = v, tok_line = l\<rparr>"

section \<open>Lexer\<close>

text \<open>Character classes of the C locale. The source passes a plain \<^verbatim>\<open>char\<close> to
  \<^verbatim>\<open>std::isspace\<close>, \<^verbatim>\<open>std::isdigit\<close>, \<^verbatim>\<open>std::isalpha\<close> and \<^verbatim>\<open>std::isalnum\<close>; bytes
  outside ASCII belong to none of the classes.\<close>

definition isspace :: "char \<Rightarrow> bool" where
  "isspace c = (c \<in> set [CHR '' '', CHR 0x09, CHR 0x0A, CHR 0x0B, CHR 0x0C, CHR 0x0D])"

definition isdigit :: "char \<Rightarrow> bool" where
  "isdigit c = (c \<in> set ''0123456789'')"

definition isalpha :: "char \<Rightarrow> bool" where
  "isalpha c = (c \<in> set ''abcdefghijklmnopqrstuvwxyzABCDEFGHIJKLMNOPQRSTUVWXYZ'')"

definition isalnum :: "char \<Rightarrow> bool" where
  "isalnum c = (isalpha c \<or> isdigit c)"

text \<open>The lexer's fields \<^verbatim>\<open>pos\<close> and \<^verbatim>\<open>line\<close> are passed and returned explicitly; the
  field \<^verbatim>\<open>source\<close> never changes and is the first argument everywhere. Every read
  \<^verbatim>\<open>source[pos]\<close> of the source is guarded by \<^verbatim>\<open>pos < source.length()\<close>, and so is every
  \<open>src ! pos\<close> below.\<close>

function skipWhitespace :: "string \<Rightarrow> nat \<Rightarrow> int \<Rightarrow> nat \<times> int" where
  "skipWhitespace src pos line =
     (if pos < length src \<and> isspace (src ! pos)
      then skipWhitespace src (pos + 1) (if src ! pos = CHR 0x0A then line + 1 else line)
      else (pos, line))"
  by pat_completeness auto
termination
  by (relation "measure (\<lambda>(src, pos, line). length src - pos)") auto

function skipComment :: "string \<Rightarrow> nat \<Rightarrow> nat" where
  "skipComment src pos =
     (if pos < length src \<and> src ! pos \<noteq> CHR 0x0A then skipComment src (pos + 1) else pos)"
  by pat_completeness auto
termination
  by (relation "measure (\<lambda>(src, pos). length src - pos)") auto

text \<open>\<^verbatim>\<open>Lexer::number\<close>: the loop with its accumulator \<^verbatim>\<open>num\<close> and flag \<^verbatim>\<open>hasDot\<close>; the
  result is the token text and the new position.\<close>

function number_loop :: "string \<Rightarrow> nat \<Rightarrow> string \<Rightarrow> bool \<Rightarrow> string \<times> nat" where
  "number_loop src pos num hasDot =
     (if pos < length src then
        (if isdigit (src ! pos) then number_loop src (pos + 1) (num @ [src ! pos]) hasDot
         else if src ! pos = CHR ''.'' \<and> \<not> hasDot then
           (if pos + 1 < length src \<and> src ! (pos + 1) = CHR ''.'' then (num, pos)
            else if pos + 1 < length src \<and> isdigit (src ! (pos + 1))
              then number_loop src (pos + 1) (num @ [src ! pos]) True
            else (num, pos))
         else (num, pos))
      else (num, pos))"
  by pat_completeness auto
termination
  by (relation "measure (\<lambda>(src, pos, num, hasDot). length src - pos)") auto

definition number_tok :: "string \<Rightarrow> nat \<Rightarrow> int \<Rightarrow> Token \<times> nat" where
  "number_tok src pos line =
     (case number_loop src pos [] False of (num, pos') \<Rightarrow> (mkToken TOKEN_NUMBER num line, pos'))"

function identifier_loop :: "string \<Rightarrow> nat \<Rightarrow> string \<Rightarrow> string \<times> nat" where
  "identifier_loop src pos ident =
     (if pos < length src \<and> (isalnum (src ! pos) \<or> src ! pos = CHR ''_'')
      then identifier_loop src (pos + 1) (ident @ [src ! pos])
      else (ident, pos))"
  by pat_completeness auto
termination
  by (relation "measure (\<lambda>(src, pos, ident). length src - pos)") auto

definition keyword :: "string \<Rightarrow> TokenType" where
  "keyword ident =
     (if ident = ''let'' then TOKEN_LET
      else if ident = ''fn'' then TOKEN_FN
      else if ident = ''if'' then TOKEN_IF
      else if ident = ''else'' then TOKEN_ELSE
      else if ident = ''while'' then TOKEN_WHILE
      else if ident = ''for'' then TOKEN_FOR
      else if ident = ''in'' then TOKEN_IN
      else if ident = ''return'' then TOKEN_RETURN
      else if ident = ''puts'' then TOKEN_PUTS
      else if ident = ''true'' then TOKEN_TRUE
      else if ident = ''false'' then TOKEN_FALSE
      else TOKEN_IDENTIFIER)"

definition identifier_tok :: "string \<Rightarrow> nat \<Rightarrow> int \<Rightarrow> Token \<times> nat" where
  "identifier_tok src pos line =
     (case identifier_loop src pos [] of (ident, pos') \<Rightarrow> (mkToken (keyword ident) ident line, pos'))"

text \<open>\<^verbatim>\<open>Lexer::string\<close>. The loop stops at a closing quote or at the end of the input;
  after it \<^verbatim>\<open>pos++\<close> runs in both cases and the token is returned. There is no
  \<^verbatim>\<open>throw\<close> in the lexer.\<close>

definition unescape :: "char \<Rightarrow> char" where
  "unescape c =
     (if c = CHR ''n'' then CHR 0x0A
      else if c = CHR ''t'' then CHR 0x09
      else if c = CHR 0x5C then CHR 0x5C
      else if c = CHR 0x22 then CHR 0x22
      else c)"

function string_loop :: "string \<Rightarrow> nat \<Rightarrow> string \<Rightarrow> string \<times> nat" where
  "string_loop src pos str =
     (if pos < length src \<and> src ! pos \<noteq> CHR 0x22 then
        (if src ! pos = CHR 0x5C \<and> pos + 1 < length src
           then string_loop src (pos + 2) (str @ [unescape (src ! (pos + 1))])
         else if src ! pos = CHR ''#'' \<and> pos + 1 < length src \<and> src ! (pos + 1) = CHR ''{''
           then string_loop src (pos + 2) (str @ ''#{'')
         else string_loop src (pos + 1) (str @ [src ! pos]))
      else (str, pos))"
  by pat_completeness auto
termination
  by (relation "measure (\<lambda>(src, pos, str). length src - pos)") auto

definition string_tok :: "string \<Rightarrow> nat \<Rightarrow> int \<Rightarrow> Token \<times> nat" where
  "string_tok src pos line =
     (case string_loop src (pos + 1) [] of (str, pos') \<Rightarrow> (mkToken TOKEN_STRING str line, pos' + 1))"

text \<open>\<^verbatim>\<open>Lexer::nextToken\<close>, called with \<^verbatim>\<open>pos < source.length()\<close>. A character that
  starts no token (and a lone \<^verbatim>\<open>&\<close> or \<^verbatim>\<open>|\<close>) gives a \<^verbatim>\<open>TOKEN_EOF\<close> token in the middle
  of the sequence, as in the source.\<close>

definition two_char :: "string \<Rightarrow> nat \<Rightarrow> int \<Rightarrow> char \<Rightarrow> TokenType \<Rightarrow> string \<Rightarrow> TokenType \<Rightarrow> string
    \<Rightarrow> Token \<times> nat" where
  "two_char src pos line c2 ty2 v2 ty1 v1 =
     (if pos < length src \<and> src ! pos = c2 then (mkToken ty2 v2 line, pos + 1)
      else (mkToken ty1 v1 line, pos))"

definition nextToken :: "string \<Rightarrow> nat \<Rightarrow> int \<Rightarrow> Token \<times> nat" where
  "nextToken src pos0 line =
     (let c = src ! pos0 in
      if isdigit c then number_tok src pos0 line
      else if isalpha c \<or> c = CHR ''_'' then identifier_tok src pos0 line
      else if c = CHR 0x22 then string_tok src pos0 line
      else let pos = pos0 + 1 in
        if c = CHR ''+'' then (mkToken TOKEN_PLUS ''+'' line, pos)
        else if c = CHR ''*'' then (mkToken TOKEN_STAR ''*'' line, pos)
        else if c = CHR ''/'' then (mkToken TOKEN_SLASH ''/'' line, pos)
        else if c = CHR ''%'' then (mkToken TOKEN_PERCENT ''%'' line, pos)
        else if c = CHR ''('' then (mkToken TOKEN_LPAREN ''('' line, pos)
        else if c = CHR '')'' then (mkToken TOKEN_RPAREN '')'' line, pos)
        else if c = CHR ''{'' then (mkToken TOKEN_LBRACE ''{'' line, pos)
        else if c = CHR ''}'' then (mkToken TOKEN_RBRACE ''}'' line, pos)
        else if c = CHR ''['' then (mkToken TOKEN_LBRACKET ''['' line, pos)
        else if c = CHR '']'' then (mkToken TOKEN_RBRACKET '']'' line, pos)
        else if c = CHR '','' then (mkToken TOKEN_COMMA '','' line, pos)
        else if c = CHR '';'' then (mkToken TOKEN_SEMICOLON '';'' line, pos)
        else if c = CHR '':'' then (mkToken TOKEN_COLON '':'' line, pos)
        else if c = CHR ''.'' then two_char src pos line (CHR ''.'') TOKEN_DOTDOT ''..'' TOKEN_DOT ''.''
        else if c = CHR ''-'' then two_char src pos line (CHR ''>'') TOKEN_ARROW ''->'' TOKEN_MINUS ''-''
        else if c = CHR ''='' then two_char src pos line (CHR ''='') TOKEN_EQUAL_EQUAL ''=='' TOKEN_EQUAL ''=''
        else if c = CHR ''!'' then two_char src pos line (CHR ''='') TOKEN_BANG_EQUAL ''!='' TOKEN_BANG ''!''
        else if c = CHR ''<'' then two_char src pos line (CHR ''='') TOKEN_LESS_EQUAL ''<='' TOKEN_LESS ''<''
        else if c = CHR ''>'' then two_char src pos line (CHR ''='') TOKEN_GREATER_EQUAL ''>='' TOKEN_GREATER ''>''
        else if c = CHR ''&'' then two_char src pos line (CHR ''&'') TOKEN_AND ''&&'' TOKEN_EOF ''''
        else if c = CHR ''|'' then two_char src pos line (CHR ''|'') TOKEN_OR ''||'' TOKEN_EOF ''''
        else (mkToken TOKEN_EOF '''' line, pos))"

declare skipWhitespace.simps [simp del] skipComment.simps [simp del] number_loop.simps [simp del]
  identifier_loop.simps [simp del] string_loop.simps [simp del]

lemma skipWhitespace_ge: "pos \<le> fst (skipWhitespace src pos line)"
proof (induction src pos line rule: skipWhitespace.induct)
  case (1 src pos line)
  show ?case
  proof (cases "pos < length src \<and> isspace (src ! pos)")
    case True
    with 1 have "pos + 1 \<le> fst (skipWhitespace src pos line)"
      by (subst skipWhitespace.simps) simp
    then show ?thesis by simp
  next
    case False
    then show ?thesis by (subst skipWhitespace.simps) auto
  qed
qed

lemma skipComment_ge: "pos \<le> skipComment src pos"
proof (induction src pos rule: skipComment.induct)
  case (1 src pos)
  show ?case
  proof (cases "pos < length src \<and> src ! pos \<noteq> CHR 0x0A")
    case True
    with 1 have "pos + 1 \<le> skipComment src pos"
      by (subst skipComment.simps) simp
    then show ?thesis by simp
  next
    case False
    then show ?thesis by (subst skipComment.simps) auto
  qed
qed

lemma skipComment_gt:
  assumes "pos < length src" "src ! pos \<noteq> CHR 0x0A"
  shows "pos < skipComment src pos"
proof -
  have "skipComment src pos = skipComment src (pos + 1)"
    using assms by (subst skipComment.simps) simp
  moreover have "pos + 1 \<le> skipComment src (pos + 1)" by (rule skipComment_ge)
  ultimately show ?thesis by simp
qed

lemma number_loop_ge: "pos \<le> snd (number_loop src pos num hasDot)"
proof (induction src pos num hasDot rule: number_loop.induct)
  case (1 src pos num hasDot)
  show ?case
    apply (subst number_loop.simps)
    using 1 by (auto intro: Suc_leD)
qed

lemma number_loop_gt:
  assumes "pos < length src" "isdigit (src ! pos)"
  shows "pos < snd (number_loop src pos num hasDot)"
proof -
  have "number_loop src pos num hasDot = number_loop src (pos + 1) (num @ [src ! pos]) hasDot"
    using assms by (subst number_loop.simps) simp
  moreover have "pos + 1 \<le> snd (number_loop src (pos + 1) (num @ [src ! pos]) hasDot)"
    by (rule number_loop_ge)
  ultimately show ?thesis by simp
qed

lemma identifier_loop_ge: "pos \<le> snd (identifier_loop src pos ident)"
proof (induction src pos ident rule: identifier_loop.induct)
  case (1 src pos ident)
  show ?case
    apply (subst identifier_loop.simps)
    using 1 by (auto intro: Suc_leD)
qed

lemma identifier_loop_gt:
  assumes "pos < length src" "isalpha (src ! pos) \<or> src ! pos = CHR ''_''"
  shows "pos < snd (identifier_loop src pos ident)"
proof -
  have "identifier_loop src pos ident = identifier_loop src (pos + 1) (ident @ [src ! pos])"
    using assms by (subst identifier_loop.simps) (auto simp: isalnum_def)
  moreover have "pos + 1 \<le> snd (identifier_loop src (pos + 1) (ident @ [src ! pos]))"
    by (rule identifier_loop_ge)
  ultimately show ?thesis by simp
qed

lemma string_loop_ge: "pos \<le> snd (string_loop src pos str)"
proof (induction src pos str rule: string_loop.induct)
  case (1 src pos str)
  show ?case
    apply (subst string_loop.simps)
    using 1 by (auto dest!: Suc_leD)
qed

lemma two_char_gt: "pos0 < pos \<Longrightarrow> pos0 < snd (two_char src pos line c2 ty2 v2 ty1 v1)"
  by (simp add: two_char_def)

lemma nextToken_gt:
  assumes "pos < length src"
  shows "pos < snd (nextToken src pos line)"
proof -
  have n: "pos < snd (number_tok src pos line)" if "isdigit (src ! pos)"
    using number_loop_gt [OF assms that, of "[]" False]
    by (simp add: number_tok_def split_beta)
  have i: "pos < snd (identifier_tok src pos line)" if "isalpha (src ! pos) \<or> src ! pos = CHR ''_''"
    using identifier_loop_gt [OF assms that, of "[]"]
    by (simp add: identifier_tok_def split_beta)
  have s: "pos < snd (string_tok src pos line)"
    using string_loop_ge [of "pos + 1" src "[]"]
    by (simp add: string_tok_def split_beta)
  show ?thesis
    unfolding nextToken_def Let_def
    using n i s by (simp add: two_char_gt)
qed

text \<open>\<^verbatim>\<open>Lexer::tokenize\<close>: the loop, which returns the tokens and the line counter, and
  the final \<^verbatim>\<open>TOKEN_EOF\<close>.\<close>

function tokenize_loop :: "string \<Rightarrow> nat \<Rightarrow> int \<Rightarrow> Token list \<Rightarrow> Token list \<times> int" where
  "tokenize_loop src pos line tokens =
     (if pos < length src then
        (case skipWhitespace src pos line of (pos1, line1) \<Rightarrow>
         if pos1 \<ge> length src then (tokens, line1)
         else if src ! pos1 = CHR ''/'' \<and> pos1 + 1 < length src \<and> src ! (pos1 + 1) = CHR ''/''
           then tokenize_loop src (skipComment src pos1) line1 tokens
         else (case nextToken src pos1 line1 of (tok, pos2) \<Rightarrow>
           tokenize_loop src pos2 line1 (tokens @ [tok])))
      else (tokens, line))"
  by pat_completeness auto
termination
proof (relation "measure (\<lambda>(src, pos, line, tokens). length src - pos)", goal_cases)
  case 1
  show ?case by simp
next
  case (2 src pos line tokens pos1 line1)
  have "pos \<le> pos1" using 2(2) [symmetric] skipWhitespace_ge [of pos src line] by simp
  moreover have "pos1 < skipComment src pos1"
    using 2 by (intro skipComment_gt) auto
  ultimately show ?case using 2(1) by simp
next
  case (3 src pos line tokens pos1 line1 tok pos2)
  have "pos \<le> pos1" using 3(2) [symmetric] skipWhitespace_ge [of pos src line] by simp
  moreover have "pos1 < pos2"
    using 3(3) 3(5) [symmetric] nextToken_gt [of pos1 src line1] by simp
  ultimately show ?case using 3(1) by simp
qed

declare tokenize_loop.simps [simp del]

definition tokenize :: "string \<Rightarrow> Token list" where
  "tokenize src =
     (case tokenize_loop src 0 1 [] of (tokens, line) \<Rightarrow> tokens @ [mkToken TOKEN_EOF '''' line])"

section \<open>Values\<close>

text \<open>\<^verbatim>\<open>struct Value\<close> carries a tag and one payload per variant; every constructor of the
  source leaves the payloads of the other variants at their defaults (\<^verbatim>\<open>num(0)\<close>,
  \<^verbatim>\<open>boolean(false)\<close>, empty \<^verbatim>\<open>str\<close> and \<^verbatim>\<open>array\<close>) and no operation writes a payload
  that does not belong to the tag, so a value is a tagged union whose selectors answer the
  defaults on the other variants. A Number holds a
  C++ \<^verbatim>\<open>double\<close>; the model computes with exact rationals, which agrees with the source
  wherever the source's arithmetic is exact (rounding, infinities and NaN are not modelled).\<close>

datatype Type = T_NUMBER | T_STRING | T_BOOL | T_ARRAY | T_NIL

datatype Value =
    NUMBER (num: rat) | STRING (str: string) | BOOL (boolean: bool) | ARRAY (array: "Value list") | NIL
where
  "num (STRING s) = 0" | "num (BOOL b) = 0" | "num (ARRAY a) = 0" | "num NIL = 0"
| "str (NUMBER n) = []" | "str (BOOL b) = []" | "str (ARRAY a) = []" | "str NIL = []"
| "boolean (NUMBER n) = False" | "boolean (STRING s) = False" | "boolean (ARRAY a) = False"
| "boolean NIL = False"
| "array (NUMBER n) = []" | "array (STRING s) = []" | "array (BOOL b) = []" | "array NIL = []"

text \<open>The field \<^verbatim>\<open>type\<close> of a value.\<close>

fun type_of :: "Value \<Rightarrow> Type" where
  "type_of (NUMBER n) = T_NUMBER"
| "type_of (STRING s) = T_STRING"
| "type_of (BOOL b) = T_BOOL"
| "type_of (ARRAY a) = T_ARRAY"
| "type_of NIL = T_NIL"

text \<open>\<^verbatim>\<open>static_cast<int>(x)\<close> truncates towards zero; the conversion is undefined when the
  truncated value is not a 32-bit \<^verbatim>\<open>int\<close>, which is \<open>None\<close> here.\<close>

definition cast_int :: "rat \<Rightarrow> int option" where
  "cast_int x =
     (let t = (if 0 \<le> x then \<lfloor>x\<rfloor> else \<lceil>x\<rceil>)
      in if - 2147483648 \<le> t \<and> t \<le> 2147483647 then Some t else None)"

definition digit_char :: "nat \<Rightarrow> char" where
  "digit_char d = ''0123456789'' ! (d mod 10)"

fun nat_digits :: "nat \<Rightarrow> string" where
  "nat_digits n = (if n < 10 then [digit_char n] else nat_digits (n div 10) @ [digit_char n])"

declare nat_digits.simps [simp del]

text \<open>\<^verbatim>\<open>std::to_string(int)\<close>.\<close>

definition to_string_int :: "int \<Rightarrow> string" where
  "to_string_int i = (if i < 0 then CHR ''-'' # nat_digits (nat (- i)) else nat_digits (nat i))"

text \<open>\<^verbatim>\<open>std::to_string(double)\<close> prints with \<^verbatim>\<open>%f\<close>: six digits after the point, the
  value rounded to the nearest, ties to even. The model rounds the exact rational; the source
  rounds the binary expansion of the \<^verbatim>\<open>double\<close>, which can differ in the last digit where the
  decimal value is a tie.\<close>

definition round_half_even :: "rat \<Rightarrow> int" where
  "round_half_even y =
     (let f = \<lfloor>y\<rfloor>; d = y - of_int f
      in if d < 1 / 2 then f else if 1 / 2 < d then f + 1 else if even f then f else f + 1)"

definition to_string_double :: "rat \<Rightarrow> string" where
  "to_string_double x =
     (let scaled = nat (round_half_even (\<bar>x\<bar> * 1000000));
          frac = nat_digits (scaled mod 1000000)
      in (if x < 0 then ''-'' else '''') @ nat_digits (scaled div 1000000) @ ''.''
           @ replicate (6 - length frac) (CHR ''0'') @ frac)"

text \<open>\<^verbatim>\<open>Value::toString\<close>. For a Number the source first compares \<^verbatim>\<open>num\<close> with
  \<^verbatim>\<open>static_cast<int>(num)\<close>, so the result is \<open>None\<close> where that conversion is undefined.\<close>

definition strip_zeros :: "string \<Rightarrow> string" where
  "strip_zeros s =
     (let t = rev (dropWhile (\<lambda>c. c = CHR ''0'') (rev s))
      in if t \<noteq> [] \<and> last t = CHR ''.'' then butlast t else t)"

fun join_strings :: "string list \<Rightarrow> string" where
  "join_strings [] = []"
| "join_strings [x] = x"
| "join_strings (x # y # ys) = x @ '', '' @ join_strings (y # ys)"

fun sequence_option :: "'a option list \<Rightarrow> 'a list option" where
  "sequence_option [] = Some []"
| "sequence_option (None # xs) = None"
| "sequence_option (Some x # xs) = (case sequence_option xs of None \<Rightarrow> None | Some ys \<Rightarrow> Some (x # ys))"

fun toString :: "Value \<Rightarrow> string option" where
  "toString (NUMBER x) =
     (case cast_int x of
        None \<Rightarrow> None
      | Some i \<Rightarrow> if x = of_int i then Some (to_string_int i)
                  else Some (strip_zeros (to_string_double x)))"
| "toString (STRING t) = Some t"
| "toString (BOOL b) = Some (if b then ''true'' else ''false'')"
| "toString (ARRAY vs) =
     (case sequence_option (map toString vs) of
        None \<Rightarrow> None
      | Some parts \<Rightarrow> Some (''['' @ join_strings parts @ '']''))"
| "toString NIL = Some ''nil''"

text \<open>\<^verbatim>\<open>std::stod\<close> on the text of a number token. The lexer only makes texts of the
  form digits, or digits, a point and digits; on any other text the model answers \<open>None\<close>
  (the source would raise \<^verbatim>\<open>std::invalid_argument\<close> where no number starts the text). The
  model answers the exact decimal value; the source rounds it to the nearest \<^verbatim>\<open>double\<close> and
  raises \<^verbatim>\<open>std::out_of_range\<close> for a literal above the largest \<^verbatim>\<open>double\<close>, which is not
  modelled.\<close>

definition digit_val :: "char \<Rightarrow> nat" where
  "digit_val c = of_char c - 48"

definition parse_digits :: "string \<Rightarrow> nat" where
  "parse_digits ds = foldl (\<lambda>acc c. acc * 10 + digit_val c) 0 ds"

definition stod :: "string \<Rightarrow> rat option" where
  "stod text =
     (let ip = takeWhile isdigit text; rest = dropWhile isdigit text
      in if ip = [] then None
         else if rest = [] then Some (of_nat (parse_digits ip))
         else if hd rest = CHR ''.'' \<and> tl rest \<noteq> [] \<and> list_all isdigit (tl rest)
           then Some (of_nat (parse_digits ip) + of_nat (parse_digits (tl rest)) / 10 ^ length (tl rest))
         else None)"

section \<open>Interpreter state\<close>

record Function =
  params :: "string list"
  bodyStart :: nat
  bodyEnd :: nat

text \<open>The fields of \<^verbatim>\<open>class Interpreter\<close> (\<open>funcs\<close> is the field \<^verbatim>\<open>functions\<close>), and the two output streams: \<open>stdout\<close> holds the
  lines written to \<^verbatim>\<open>std::cout\<close>, \<open>stderr\<close> those written to \<^verbatim>\<open>std::cerr\<close>.\<close>

record Interpreter =
  globalVars :: "string \<rightharpoonup> Value"
  scopes :: "(string \<rightharpoonup> Value) list"
  funcs :: "string \<rightharpoonup> Function"
  tokens :: "Token list"
  current :: nat
  inFunction :: bool
  hasReturned :: bool
  returnValue :: Value
  stdout :: "string list"
  stderr :: "string list"

definition Interpreter_init :: "Token list \<Rightarrow> Interpreter" where
  "Interpreter_init toks =
     \<lparr>globalVars = Map.empty, scopes = [Map.empty], funcs = Map.empty, tokens = toks,
      current = 0, inFunction = False, hasReturned = False, returnValue = NIL,
      stdout = [], stderr = []\<rparr>"

text \<open>The outcome of running a piece of the interpreter: a result, or no result within
  the given number of nested steps (\<open>OutOfFuel\<close>; the source's loops and recursion are
  unbounded), or undefined behaviour of the C++ source (\<open>Fault\<close>: a read of
  \<^verbatim>\<open>tokens[current]\<close> past the end of the vector, an undefined conversion to \<^verbatim>\<open>int\<close>).\<close>

datatype 'a result = Ok 'a | OutOfFuel | Fault

definition bnd :: "('a \<times> 's) result \<Rightarrow> ('a \<Rightarrow> 's \<Rightarrow> 'b result) \<Rightarrow> 'b result" where
  "bnd r k = (case r of Ok (x, s) \<Rightarrow> k x s | OutOfFuel \<Rightarrow> OutOfFuel | Fault \<Rightarrow> Fault)"

lemma bnd_Ok [simp]: "bnd (Ok (x, s)) k = k x s"
  and bnd_OutOfFuel [simp]: "bnd OutOfFuel k = OutOfFuel"
  and bnd_Fault [simp]: "bnd Fault k = Fault"
  by (simp_all add: bnd_def)

lemma bnd_cong [fundef_cong]:
  "r = r' \<Longrightarrow> (\<And>x s. r' = Ok (x, s) \<Longrightarrow> k x s = k' x s) \<Longrightarrow> bnd r k = bnd r' k'"
  by (auto simp: bnd_def split: result.splits)

lemma bnd_weak_cong [cong]: "r = r' \<Longrightarrow> bnd r k = bnd r' k"
  by simp

subsection \<open>Cursor primitives\<close>

definition peek :: "Interpreter \<Rightarrow> (Token \<times> Interpreter) result" where
  "peek s = (if current s < length (tokens s) then Ok (tokens s ! current s, s) else Fault)"

definition isAtEnd :: "Interpreter \<Rightarrow> (bool \<times> Interpreter) result" where
  "isAtEnd s = bnd (peek s) (\<lambda>t s. Ok (tok_type t = TOKEN_EOF, s))"

definition advance :: "Interpreter \<Rightarrow> (Token \<times> Interpreter) result" where
  "advance s =
     (if current s < length (tokens s)
      then Ok (tokens s ! current s, s\<lparr>current := current s + 1\<rparr>) else Fault)"

definition match :: "TokenType \<Rightarrow> Interpreter \<Rightarrow> (bool \<times> Interpreter) result" where
  "match ty s =
     bnd (peek s) (\<lambda>t s.
       if tok_type t = ty then bnd (advance s) (\<lambda>_ s. Ok (True, s)) else Ok (False, s))"

text \<open>\<^verbatim>\<open>tokens[current - 1]\<close>, read by the source right after a successful \<^verbatim>\<open>match\<close>.\<close>

definition previous :: "Interpreter \<Rightarrow> (Token \<times> Interpreter) result" where
  "previous s =
     (if 0 < current s \<and> current s - 1 < length (tokens s)
      then Ok (tokens s ! (current s - 1), s) else Fault)"

subsection \<open>Scope stack\<close>

text \<open>\<^verbatim>\<open>Interpreter::setVariable\<close>. The loop \<^verbatim>\<open>for (int i = scopes.size() - 1; i >= 0; i--)\<close>
  is \<open>setVariable_search\<close>, whose argument \<open>Suc i\<close> stands for the loop at index \<open>i\<close>; it
  answers the updated stack when a frame binds the name.\<close>

fun setVariable_search ::
  "nat \<Rightarrow> string \<Rightarrow> Value \<Rightarrow> (string \<rightharpoonup> Value) list \<Rightarrow> (string \<rightharpoonup> Value) list option" where
  "setVariable_search 0 name val scs = None"
| "setVariable_search (Suc i) name val scs =
     (if (scs ! i) name \<noteq> None then Some (scs[i := (scs ! i)(name \<mapsto> val)])
      else setVariable_search i name val scs)"

definition setVariable :: "string \<Rightarrow> Value \<Rightarrow> Interpreter \<Rightarrow> (unit \<times> Interpreter) result" where
  "setVariable name val s =
     (case setVariable_search (length (scopes s)) name val (scopes s) of
        Some scs \<Rightarrow> Ok ((), s\<lparr>scopes := scs\<rparr>)
      | None \<Rightarrow>
          if scopes s = [] then Fault
          else Ok ((), s\<lparr>scopes := (scopes s)[length (scopes s) - 1 := (last (scopes s))(name \<mapsto> val)]\<rparr>))"

fun getVariable_search :: "nat \<Rightarrow> string \<Rightarrow> (string \<rightharpoonup> Value) list \<Rightarrow> Value option" where
  "getVariable_search 0 name scs = None"
| "getVariable_search (Suc i) name scs =
     (case (scs ! i) name of Some v \<Rightarrow> Some v | None \<Rightarrow> getVariable_search i name scs)"

definition getVariable :: "string \<Rightarrow> Interpreter \<Rightarrow> Value" where
  "getVariable name s =
     (case getVariable_search (length (scopes s)) name (scopes s) of
        Some v \<Rightarrow> v
      | None \<Rightarrow> (case globalVars s name of Some v \<Rightarrow> v | None \<Rightarrow> NIL))"

subsection \<open>Block extents\<close>

text \<open>The brace-matching loop of \<^verbatim>\<open>ifStatement\<close>, \<^verbatim>\<open>whileStatement\<close> and
  \<^verbatim>\<open>forStatement\<close>: starting with \<^verbatim>\<open>braceCount = 1\<close> at the first token of the body it
  stops on the matching \<^verbatim>\<open>}\<close>, or at \<^verbatim>\<open>tokens.size()\<close>. (\<^verbatim>\<open>whileStatement\<close> writes the
  two tests as separate \<^verbatim>\<open>if\<close>s, the others as \<^verbatim>\<open>if\<close>/\<^verbatim>\<open>else if\<close>; a token has one
  type, so they count alike.)\<close>

definition braceStep :: "TokenType \<Rightarrow> int \<Rightarrow> int" where
  "braceStep ty braceCount =
     (if ty = TOKEN_LBRACE then braceCount + 1
      else if ty = TOKEN_RBRACE then braceCount - 1
      else braceCount)"

function scanBlock :: "Token list \<Rightarrow> int \<Rightarrow> nat \<Rightarrow> nat" where
  "scanBlock toks braceCount e =
     (if braceCount > 0 \<and> e < length toks then
        (if braceStep (tok_type (toks ! e)) braceCount > 0
         then scanBlock toks (braceStep (tok_type (toks ! e)) braceCount) (e + 1)
         else e)
      else e)"
  by pat_completeness auto
termination
  by (relation "measure (\<lambda>(toks, braceCount, e). length toks - e)") auto

declare scanBlock.simps [simp del]

text \<open>The loop of \<^verbatim>\<open>functionDeclaration\<close> moves the cursor itself and stops at the
  end-of-input token; \<open>None\<close> is a read past the end of the vector.\<close>

function fn_scan :: "Token list \<Rightarrow> int \<Rightarrow> nat \<Rightarrow> nat option" where
  "fn_scan toks braceCount cur =
     (if braceCount > 0 then
        (if cur < length toks then
           (if tok_type (toks ! cur) = TOKEN_EOF then Some cur
            else fn_scan toks (braceStep (tok_type (toks ! cur)) braceCount) (cur + 1))
         else None)
      else Some cur)"
  by pat_completeness auto
termination
  by (relation "measure (\<lambda>(toks, braceCount, cur). length toks - cur)") auto

declare fn_scan.simps [simp del]

text \<open>The parameter loop of \<^verbatim>\<open>functionDeclaration\<close>. Every round consumes a token, so
  the loop ends (at the latest with a read past the end).\<close>

lemma match_current:
  "match ty s = Ok (b, s') \<Longrightarrow> tokens s' = tokens s \<and> current s \<le> current s'"
  by (auto simp: match_def peek_def advance_def split: if_splits)

lemma advance_current:
  "advance s = Ok (t, s') \<Longrightarrow> tokens s' = tokens s \<and> current s' = current s + 1 \<and> current s < length (tokens s)"
  by (auto simp: advance_def split: if_splits)

function fn_params :: "string list \<Rightarrow> Interpreter \<Rightarrow> (string list \<times> Interpreter) result" where
  "fn_params ps s =
     bnd (match TOKEN_RPAREN s) (\<lambda>m s.
       if m then Ok (ps, s)
       else bnd (advance s) (\<lambda>param s.
         bnd (match TOKEN_COMMA s) (\<lambda>m s.
           if m then fn_params (ps @ [tok_value param]) s
           else bnd (match TOKEN_RPAREN s) (\<lambda>_ s. Ok (ps @ [tok_value param], s)))))"
  by pat_completeness auto
termination
proof (relation "measure (\<lambda>(ps, s). length (tokens s) - current s)", goal_cases)
  case 1
  show ?case by simp
next
  case (2 ps s m s1 param s2 m' s3)
  from 2(1) have a: "tokens s1 = tokens s" "current s \<le> current s1"
    using match_current by blast+
  from 2(3) have b: "tokens s2 = tokens s1" "current s2 = current s1 + 1" "current s1 < length (tokens s1)"
    using advance_current by blast+
  from 2(4) have c: "tokens s3 = tokens s2" "current s2 \<le> current s3"
    using match_current by blast+
  have "current s3 \<le> length (tokens s3)"
    using 2(4) by (auto simp: match_def peek_def advance_def split: if_splits)
  with a b c show ?case by simp
qed

declare fn_params.simps [simp del]

text \<open>\<^verbatim>\<open>Interpreter::functionDeclaration\<close>.\<close>

definition functionDeclaration :: "Interpreter \<Rightarrow> (unit \<times> Interpreter) result" where
  "functionDeclaration s =
     bnd (advance s) (\<lambda>name s.
     bnd (match TOKEN_LPAREN s) (\<lambda>_ s.
     bnd (fn_params [] s) (\<lambda>ps s.
     bnd (match TOKEN_LBRACE s) (\<lambda>_ s.
       case fn_scan (tokens s) 1 (current s) of
         None \<Rightarrow> Fault
       | Some cur \<Rightarrow>
           Ok ((), s\<lparr>current := cur,
                    funcs := (funcs s)(tok_value name \<mapsto>
                      \<lparr>params = ps, bodyStart = current s, bodyEnd = cur - 1\<rparr>)\<rparr>)))))"

subsection \<open>String interpolation\<close>

text \<open>\<^verbatim>\<open>str.find(sub, pos)\<close>: the first index from \<open>pos\<close> on where \<open>sub\<close> occurs, \<open>None\<close>
  for \<^verbatim>\<open>npos\<close>.\<close>

function find_from :: "string \<Rightarrow> string \<Rightarrow> nat \<Rightarrow> nat option" where
  "find_from text sub pos =
     (if pos + length sub \<le> length text then
        (if take (length sub) (drop pos text) = sub then Some pos
         else find_from text sub (pos + 1))
      else None)"
  by pat_completeness auto
termination
  by (relation "measure (\<lambda>(text, sub, pos). Suc (length text) - pos)") auto

declare find_from.simps [simp del]

subsection \<open>Operators\<close>

text \<open>The coercion of \<^verbatim>\<open>ifStatement\<close> (\<^verbatim>\<open>shouldExecute\<close>).\<close>

definition shouldExecute :: "Value \<Rightarrow> bool" where
  "shouldExecute condition =
     (if type_of condition = T_BOOL then boolean condition
      else if type_of condition = T_NUMBER then num condition \<noteq> 0
      else if type_of condition = T_STRING then str condition \<noteq> []
      else False)"

text \<open>The coercion of \<^verbatim>\<open>logicalOr\<close> and \<^verbatim>\<open>logicalAnd\<close> (\<^verbatim>\<open>leftBool\<close>, \<^verbatim>\<open>rightBool\<close>).\<close>

definition toBool :: "Value \<Rightarrow> bool" where
  "toBool v =
     (if type_of v = T_BOOL then boolean v
      else if type_of v = T_NUMBER then num v \<noteq> 0
      else False)"

text \<open>The body of the loop of \<^verbatim>\<open>comparison\<close>: the value of \<^verbatim>\<open>result\<close>.\<close>

definition compare_values :: "TokenType \<Rightarrow> Value \<Rightarrow> Value \<Rightarrow> bool" where
  "compare_values op left right =
     (if type_of left = T_NUMBER \<and> type_of right = T_NUMBER then
        (if op = TOKEN_EQUAL_EQUAL then num left = num right
         else if op = TOKEN_BANG_EQUAL then num left \<noteq> num right
         else if op = TOKEN_LESS then num left < num right
         else if op = TOKEN_GREATER then num left > num right
         else if op = TOKEN_LESS_EQUAL then num left \<le> num right
         else if op = TOKEN_GREATER_EQUAL then num left \<ge> num right
         else False)
      else if type_of left = T_BOOL \<and> type_of right = T_BOOL then
        (if op = TOKEN_EQUAL_EQUAL then boolean left = boolean right
         else if op = TOKEN_BANG_EQUAL then boolean left \<noteq> boolean right
         else False)
      else if type_of left = T_STRING \<and> type_of right = T_STRING then
        (if op = TOKEN_EQUAL_EQUAL then str left = str right
         else if op = TOKEN_BANG_EQUAL then str left \<noteq> str right
         else False)
      else False)"

text \<open>The body of the loop of \<^verbatim>\<open>term\<close>: the new value of \<^verbatim>\<open>left\<close>.\<close>

definition term_apply :: "TokenType \<Rightarrow> Value \<Rightarrow> Value \<Rightarrow> Value" where
  "term_apply op left right =
     (if type_of left = T_NUMBER \<and> type_of right = T_NUMBER then
        (if op = TOKEN_PLUS then NUMBER (num left + num right) else NUMBER (num left - num right))
      else if type_of left = T_STRING \<and> type_of right = T_STRING \<and> op = TOKEN_PLUS
        then STRING (str left @ str right)
      else left)"

text \<open>\<^verbatim>\<open>fmod\<close>: the remainder with the sign of the dividend, for a divisor other than 0
  (\<^verbatim>\<open>factor\<close> calls it behind its test of the divisor only; for the divisor 0, where C gives
  NaN, the value of the definition means nothing).\<close>

definition fmod :: "rat \<Rightarrow> rat \<Rightarrow> rat" where
  "fmod x y = (let q = x / y in x - y * of_int (if 0 \<le> q then \<lfloor>q\<rfloor> else \<lceil>q\<rceil>))"

text \<open>The body of the loop of \<^verbatim>\<open>factor\<close>: the new value of \<^verbatim>\<open>left\<close>.\<close>

definition factor_apply :: "TokenType \<Rightarrow> Value \<Rightarrow> Value \<Rightarrow> Value" where
  "factor_apply op left right =
     (if type_of left = T_NUMBER \<and> type_of right = T_NUMBER then
        (if op = TOKEN_STAR then NUMBER (num left * num right)
         else if op = TOKEN_SLASH \<and> num right \<noteq> 0 then NUMBER (num left / num right)
         else if op = TOKEN_PERCENT \<and> num right \<noteq> 0 then NUMBER (fmod (num left) (num right))
         else left)
      else left)"

text \<open>Parameter binding of \<^verbatim>\<open>callFunction\<close>:
  \<^verbatim>\<open>for (i = 0; i < params.size() && i < args.size(); i++) scopes.back()[params[i]] = args[i]\<close>.\<close>

fun bind_params :: "string list \<Rightarrow> Value list \<Rightarrow> (string \<rightharpoonup> Value) \<Rightarrow> (string \<rightharpoonup> Value)" where
  "bind_params (p # ps) (a # as) frame = bind_params ps as (frame(p \<mapsto> a))"
| "bind_params ps as frame = frame"

text \<open>The index step of \<^verbatim>\<open>call\<close>.\<close>

definition index_value :: "Value \<Rightarrow> Value \<Rightarrow> Value result" where
  "index_value val index =
     (if type_of val = T_ARRAY \<and> type_of index = T_NUMBER then
        (case cast_int (num index) of
           None \<Rightarrow> Fault
         | Some idx \<Rightarrow>
             if idx \<ge> 0 \<and> idx < int (length (array val)) then Ok (array val ! nat idx)
             else Ok val)
      else Ok val)"

section \<open>Statements and expressions\<close>

text \<open>The evaluator is one family of mutually recursive member functions, with loops that
  need not end. The recursion is cut by fuel: \<open>eval n\<close> is the family of functions that
  may nest calls and loop rounds \<open>n\<close> deep, a record with one field for each function. The
  body of each function is a definition \<open>f_body ev\<close> over the record \<open>ev\<close> that it
  calls, so that \<open>f (eval (Suc n)) = f_body (eval n)\<close> and \<open>f (eval 0)\<close> answers
  \<open>OutOfFuel\<close>. The loops of the source are the fields \<open>block\<close>, \<open>for_body\<close> and
  those whose names end in \<open>_loop\<close>, \<open>_args\<close> or \<open>_items\<close>: one round of the loop calls
  the field for the next round.\<close>

record evaluator =
  statement :: "Interpreter \<Rightarrow> (unit \<times> Interpreter) result"
  letStatement :: "Interpreter \<Rightarrow> (unit \<times> Interpreter) result"
  returnStatement :: "Interpreter \<Rightarrow> (unit \<times> Interpreter) result"
  putsStatement :: "Interpreter \<Rightarrow> (unit \<times> Interpreter) result"
  block :: "nat \<Rightarrow> Interpreter \<Rightarrow> (unit \<times> Interpreter) result"
  ifStatement :: "Interpreter \<Rightarrow> (unit \<times> Interpreter) result"
  whileStatement :: "Interpreter \<Rightarrow> (unit \<times> Interpreter) result"
  while_loop :: "nat \<Rightarrow> nat \<Rightarrow> nat \<Rightarrow> Value \<Rightarrow> Interpreter \<Rightarrow> (unit \<times> Interpreter) result"
  forStatement :: "Interpreter \<Rightarrow> (unit \<times> Interpreter) result"
  for_loop :: "string \<Rightarrow> nat \<Rightarrow> nat \<Rightarrow> int \<Rightarrow> int \<Rightarrow> Interpreter \<Rightarrow> (unit \<times> Interpreter) result"
  for_body :: "nat \<Rightarrow> Interpreter \<Rightarrow> (unit \<times> Interpreter) result"
  expression :: "Interpreter \<Rightarrow> (Value \<times> Interpreter) result"
  logicalOr :: "Interpreter \<Rightarrow> (Value \<times> Interpreter) result"
  logicalOr_loop :: "Value \<Rightarrow> Interpreter \<Rightarrow> (Value \<times> Interpreter) result"
  logicalAnd :: "Interpreter \<Rightarrow> (Value \<times> Interpreter) result"
  logicalAnd_loop :: "Value \<Rightarrow> Interpreter \<Rightarrow> (Value \<times> Interpreter) result"
  comparison :: "Interpreter \<Rightarrow> (Value \<times> Interpreter) result"
  comparison_loop :: "Value \<Rightarrow> Interpreter \<Rightarrow> (Value \<times> Interpreter) result"
  term_expr :: "Interpreter \<Rightarrow> (Value \<times> Interpreter) result"
  term_loop :: "Value \<Rightarrow> Interpreter \<Rightarrow> (Value \<times> Interpreter) result"
  factor :: "Interpreter \<Rightarrow> (Value \<times> Interpreter) result"
  factor_loop :: "Value \<Rightarrow> Interpreter \<Rightarrow> (Value \<times> Interpreter) result"
  unary :: "Interpreter \<Rightarrow> (Value \<times> Interpreter) result"
  call :: "Interpreter \<Rightarrow> (Value \<times> Interpreter) result"
  call_loop :: "Value \<Rightarrow> Interpreter \<Rightarrow> (Value \<times> Interpreter) result"
  call_args :: "Value list \<Rightarrow> Interpreter \<Rightarrow> (Value list \<times> Interpreter) result"
  callFunction :: "string \<Rightarrow> Value list \<Rightarrow> Interpreter \<Rightarrow> (Value \<times> Interpreter) result"
  callFunction_loop :: "string \<Rightarrow> Interpreter \<Rightarrow> (unit \<times> Interpreter) result"
  primary :: "Interpreter \<Rightarrow> (Value \<times> Interpreter) result"
  primary_items :: "Value list \<Rightarrow> Interpreter \<Rightarrow> (Value list \<times> Interpreter) result"
  interpolate :: "string \<Rightarrow> nat \<Rightarrow> Interpreter \<Rightarrow> (string \<times> Interpreter) result"
  execute :: "Interpreter \<Rightarrow> (unit \<times> Interpreter) result"

text \<open>The interpolation loop of \<^verbatim>\<open>primary\<close>, with the text \<^verbatim>\<open>str\<close> and the index \<^verbatim>\<open>pos\<close> as
  arguments. A replacement can bring a new \<^verbatim>\<open>#{\<close> behind the index, so the loop need not end.\<close>

definition interpolate_body :: "evaluator \<Rightarrow> string \<Rightarrow> nat \<Rightarrow> Interpreter \<Rightarrow> (string \<times> Interpreter) result" where
  "interpolate_body ev text pos s =
     (case find_from text ''#{'' pos of
        None \<Rightarrow> Ok (text, s)
      | Some p \<Rightarrow>
          (case find_from text ''}'' p of
             None \<Rightarrow> interpolate ev text (p + 1) s
           | Some e \<Rightarrow>
               (case toString (getVariable (take (e - p - 2) (drop (p + 2) text)) s) of
                  None \<Rightarrow> Fault
                | Some r \<Rightarrow> interpolate ev (take p text @ r @ drop (e + 1) text) (p + 1) s)))"

text \<open>\<^verbatim>\<open>Interpreter::statement\<close>.\<close>

definition statement_body :: "evaluator \<Rightarrow> Interpreter \<Rightarrow> (unit \<times> Interpreter) result" where
  "statement_body ev s =
     (if hasReturned s then Ok ((), s)
      else
        bnd (match TOKEN_LET s) (\<lambda>m s. if m then letStatement ev s else
        bnd (match TOKEN_FN s) (\<lambda>m s. if m then functionDeclaration s else
        bnd (match TOKEN_PUTS s) (\<lambda>m s. if m then putsStatement ev s else
        bnd (match TOKEN_IF s) (\<lambda>m s. if m then ifStatement ev s else
        bnd (match TOKEN_WHILE s) (\<lambda>m s. if m then whileStatement ev s else
        bnd (match TOKEN_FOR s) (\<lambda>m s. if m then forStatement ev s else
        bnd (match TOKEN_RETURN s) (\<lambda>m s. if m then returnStatement ev s else
        bnd (peek s) (\<lambda>t s.
          if tok_type t = TOKEN_IDENTIFIER \<and> current s + 1 < length (tokens s)
             \<and> tok_type (tokens s ! (current s + 1)) = TOKEN_EQUAL
          then
            bnd (advance s) (\<lambda>name s.
            bnd (match TOKEN_EQUAL s) (\<lambda>_ s.
            bnd (expression ev s) (\<lambda>val s.
            bnd (setVariable (tok_value name) val s) (\<lambda>_ s.
            bnd (match TOKEN_SEMICOLON s) (\<lambda>_ s. Ok ((), s))))))
          else
            bnd (expression ev s) (\<lambda>_ s.
            bnd (match TOKEN_SEMICOLON s) (\<lambda>_ s. Ok ((), s))))))))))))"

definition letStatement_body :: "evaluator \<Rightarrow> Interpreter \<Rightarrow> (unit \<times> Interpreter) result" where
  "letStatement_body ev s =
     bnd (advance s) (\<lambda>name s.
     bnd (match TOKEN_EQUAL s) (\<lambda>_ s.
     bnd (expression ev s) (\<lambda>val s.
     bnd (setVariable (tok_value name) val s) (\<lambda>_ s.
     bnd (match TOKEN_SEMICOLON s) (\<lambda>_ s. Ok ((), s))))))"

definition returnStatement_body :: "evaluator \<Rightarrow> Interpreter \<Rightarrow> (unit \<times> Interpreter) result" where
  "returnStatement_body ev s =
     bnd (expression ev s) (\<lambda>val s.
     bnd (match TOKEN_SEMICOLON (s\<lparr>returnValue := val, hasReturned := True\<rparr>)) (\<lambda>_ s. Ok ((), s)))"

definition putsStatement_body :: "evaluator \<Rightarrow> Interpreter \<Rightarrow> (unit \<times> Interpreter) result" where
  "putsStatement_body ev s =
     bnd (expression ev s) (\<lambda>val s.
       case toString val of
         None \<Rightarrow> Fault
       | Some line \<Rightarrow>
           bnd (match TOKEN_SEMICOLON (s\<lparr>stdout := stdout s @ [line]\<rparr>)) (\<lambda>_ s. Ok ((), s)))"

text \<open>The loop \<^verbatim>\<open>while (current < e && !isAtEnd() && !hasReturned) statement();\<close> of
  \<^verbatim>\<open>ifStatement\<close> and \<^verbatim>\<open>whileStatement\<close>.\<close>

definition block_body :: "evaluator \<Rightarrow> nat \<Rightarrow> Interpreter \<Rightarrow> (unit \<times> Interpreter) result" where
  "block_body ev e s =
     (if current s < e then
        bnd (isAtEnd s) (\<lambda>atEnd s.
          if \<not> atEnd \<and> \<not> hasReturned s
          then bnd (statement ev s) (\<lambda>_ s. block ev e s)
          else Ok ((), s))
      else Ok ((), s))"

text \<open>\<^verbatim>\<open>Interpreter::ifStatement\<close>.\<close>

definition ifStatement_body :: "evaluator \<Rightarrow> Interpreter \<Rightarrow> (unit \<times> Interpreter) result" where
  "ifStatement_body ev s =
     bnd (expression ev s) (\<lambda>condition s.
     bnd (match TOKEN_LBRACE s) (\<lambda>m s.
       if \<not> m then Ok ((), s\<lparr>stderr := stderr s @ [''Error: Expected '{' after if condition'']\<rparr>)
       else
         let thenStart = current s;
             thenEnd = scanBlock (tokens s) 1 (current s);
             afterThen = thenEnd + 1;
             hasElse = (afterThen < length (tokens s) \<and> tok_type (tokens s ! afterThen) = TOKEN_ELSE)
         in
         bnd (if hasElse
              then bnd (match TOKEN_ELSE (s\<lparr>current := afterThen\<rparr>)) (\<lambda>_ s.
                   bnd (match TOKEN_LBRACE s) (\<lambda>_ s.
                     Ok ((current s, scanBlock (tokens s) 1 (current s)), s)))
              else Ok ((0, 0), s)) (\<lambda>(elseStart, elseEnd) s.
         bnd (if shouldExecute condition then block ev thenEnd (s\<lparr>current := thenStart\<rparr>)
              else if hasElse then block ev elseEnd (s\<lparr>current := elseStart\<rparr>)
              else Ok ((), s)) (\<lambda>_ s.
           Ok ((), s\<lparr>current := (if hasElse then elseEnd + 1 else thenEnd + 1)\<rparr>)))))"

text \<open>\<^verbatim>\<open>Interpreter::whileStatement\<close> and its loop; the loop variable \<^verbatim>\<open>condition\<close> is an
  argument of \<open>while_loop\<close>.\<close>

definition whileStatement_body :: "evaluator \<Rightarrow> Interpreter \<Rightarrow> (unit \<times> Interpreter) result" where
  "whileStatement_body ev s =
     (let conditionStart = current s in
      bnd (expression ev s) (\<lambda>condition s.
      bnd (match TOKEN_LBRACE s) (\<lambda>_ s.
        let bodyStart' = current s;
            bodyEnd' = scanBlock (tokens s) 1 (current s)
        in
        bnd (while_loop ev conditionStart bodyStart' bodyEnd' condition s) (\<lambda>_ s.
          Ok ((), s\<lparr>current := bodyEnd' + 1\<rparr>)))))"

definition while_loop_body :: "evaluator \<Rightarrow> nat \<Rightarrow> nat \<Rightarrow> nat \<Rightarrow> Value \<Rightarrow> Interpreter \<Rightarrow> (unit \<times> Interpreter) result" where
  "while_loop_body ev conditionStart bodyStart' bodyEnd' condition s =
     (if type_of condition = T_BOOL \<and> boolean condition \<and> \<not> hasReturned s then
        bnd (block ev bodyEnd' (s\<lparr>current := bodyStart'\<rparr>)) (\<lambda>_ s.
        bnd (expression ev (s\<lparr>current := conditionStart\<rparr>)) (\<lambda>condition s.
        bnd (match TOKEN_LBRACE s) (\<lambda>_ s.
          while_loop ev conditionStart bodyStart' bodyEnd' condition s)))
      else Ok ((), s))"

text \<open>\<^verbatim>\<open>Interpreter::forStatement\<close>, its \<^verbatim>\<open>for\<close> loop over \<^verbatim>\<open>i\<close> and the loop over the body,
  which tests \<^verbatim>\<open>hasReturned\<close> before \<^verbatim>\<open>isAtEnd()\<close>.\<close>

definition forStatement_body :: "evaluator \<Rightarrow> Interpreter \<Rightarrow> (unit \<times> Interpreter) result" where
  "forStatement_body ev s =
     bnd (advance s) (\<lambda>iterVar s.
     bnd (match TOKEN_IN s) (\<lambda>m s.
       if \<not> m then Ok ((), s\<lparr>stderr := stderr s @ [''Error: Expected 'in' in for loop'']\<rparr>)
       else
     bnd (expression ev s) (\<lambda>start s.
     bnd (match TOKEN_DOTDOT s) (\<lambda>m s.
       if \<not> m then Ok ((), s\<lparr>stderr := stderr s @ [''Error: Expected '..' in for loop'']\<rparr>)
       else
     bnd (expression ev s) (\<lambda>end' s.
     bnd (match TOKEN_LBRACE s) (\<lambda>m s.
       if \<not> m then Ok ((), s\<lparr>stderr := stderr s @ [''Error: Expected '{' after for range'']\<rparr>)
       else
         let loopBodyStart = current s;
             loopBodyEnd = scanBlock (tokens s) 1 (current s)
         in
         bnd (if type_of start = T_NUMBER \<and> type_of end' = T_NUMBER then
                (case cast_int (num start) of
                   None \<Rightarrow> Fault
                 | Some iStart \<Rightarrow>
                     (case cast_int (num end') of
                        None \<Rightarrow> Fault
                      | Some iEnd \<Rightarrow>
                          for_loop ev (tok_value iterVar) loopBodyStart loopBodyEnd iStart iEnd s))
              else Ok ((), s)) (\<lambda>_ s.
           Ok ((), s\<lparr>current := loopBodyEnd + 1\<rparr>))))))))"

definition for_loop_body :: "evaluator \<Rightarrow> string \<Rightarrow> nat \<Rightarrow> nat \<Rightarrow> int \<Rightarrow> int \<Rightarrow> Interpreter \<Rightarrow> (unit \<times> Interpreter) result" where
  "for_loop_body ev iterVar loopBodyStart loopBodyEnd i iEnd s =
     (if i < iEnd then
        (if hasReturned s then Ok ((), s)
         else
           bnd (setVariable iterVar (NUMBER (of_int i)) s) (\<lambda>_ s.
             let savedCurrent = current s in
             bnd (for_body ev loopBodyEnd (s\<lparr>current := loopBodyStart\<rparr>)) (\<lambda>_ s.
               for_loop ev iterVar loopBodyStart loopBodyEnd (i + 1) iEnd (s\<lparr>current := savedCurrent\<rparr>))))
      else Ok ((), s))"

definition for_body_body :: "evaluator \<Rightarrow> nat \<Rightarrow> Interpreter \<Rightarrow> (unit \<times> Interpreter) result" where
  "for_body_body ev loopBodyEnd s =
     (if current s < loopBodyEnd then
        (if hasReturned s then Ok ((), s)
         else
           bnd (isAtEnd s) (\<lambda>atEnd s.
             if atEnd then Ok ((), s)
             else bnd (statement ev s) (\<lambda>_ s. for_body ev loopBodyEnd s)))
      else Ok ((), s))"

text \<open>The precedence ladder. Every loop \<^verbatim>\<open>while (match(...))\<close> of the source is a function
  of the accumulated value \<^verbatim>\<open>left\<close>.\<close>

definition expression_body :: "evaluator \<Rightarrow> Interpreter \<Rightarrow> (Value \<times> Interpreter) result" where
  "expression_body ev s = logicalOr ev s"

definition logicalOr_body :: "evaluator \<Rightarrow> Interpreter \<Rightarrow> (Value \<times> Interpreter) result" where
  "logicalOr_body ev s = bnd (logicalAnd ev s) (\<lambda>left s. logicalOr_loop ev left s)"

definition logicalOr_loop_body :: "evaluator \<Rightarrow> Value \<Rightarrow> Interpreter \<Rightarrow> (Value \<times> Interpreter) result" where
  "logicalOr_loop_body ev left s =
     bnd (match TOKEN_OR s) (\<lambda>m s.
       if m then
         bnd (logicalAnd ev s) (\<lambda>right s.
           logicalOr_loop ev (BOOL (toBool left \<or> toBool right)) s)
       else Ok (left, s))"

definition logicalAnd_body :: "evaluator \<Rightarrow> Interpreter \<Rightarrow> (Value \<times> Interpreter) result" where
  "logicalAnd_body ev s = bnd (comparison ev s) (\<lambda>left s. logicalAnd_loop ev left s)"

definition logicalAnd_loop_body :: "evaluator \<Rightarrow> Value \<Rightarrow> Interpreter \<Rightarrow> (Value \<times> Interpreter) result" where
  "logicalAnd_loop_body ev left s =
     bnd (match TOKEN_AND s) (\<lambda>m s.
       if m then
         bnd (comparison ev s) (\<lambda>right s.
           logicalAnd_loop ev (BOOL (toBool left \<and> toBool right)) s)
       else Ok (left, s))"

definition comparison_body :: "evaluator \<Rightarrow> Interpreter \<Rightarrow> (Value \<times> Interpreter) result" where
  "comparison_body ev s = bnd (term_expr ev s) (\<lambda>left s. comparison_loop ev left s)"

definition comparison_loop_body :: "evaluator \<Rightarrow> Value \<Rightarrow> Interpreter \<Rightarrow> (Value \<times> Interpreter) result" where
  "comparison_loop_body ev left s =
     bnd (peek s) (\<lambda>t s.
       if tok_type t = TOKEN_EQUAL_EQUAL \<or> tok_type t = TOKEN_BANG_EQUAL
          \<or> tok_type t = TOKEN_LESS \<or> tok_type t = TOKEN_GREATER
          \<or> tok_type t = TOKEN_LESS_EQUAL \<or> tok_type t = TOKEN_GREATER_EQUAL
       then
         bnd (advance s) (\<lambda>op s.
         bnd (term_expr ev s) (\<lambda>right s.
           comparison_loop ev (BOOL (compare_values (tok_type op) left right)) s))
       else Ok (left, s))"

definition term_expr_body :: "evaluator \<Rightarrow> Interpreter \<Rightarrow> (Value \<times> Interpreter) result" where
  "term_expr_body ev s = bnd (factor ev s) (\<lambda>left s. term_loop ev left s)"

definition term_loop_body :: "evaluator \<Rightarrow> Value \<Rightarrow> Interpreter \<Rightarrow> (Value \<times> Interpreter) result" where
  "term_loop_body ev left s =
     bnd (match TOKEN_PLUS s) (\<lambda>m s.
     bnd (if m then Ok (True, s) else match TOKEN_MINUS s) (\<lambda>m s.
       if m then
         bnd (previous s) (\<lambda>op s.
         bnd (factor ev s) (\<lambda>right s.
           term_loop ev (term_apply (tok_type op) left right) s))
       else Ok (left, s)))"

definition factor_body :: "evaluator \<Rightarrow> Interpreter \<Rightarrow> (Value \<times> Interpreter) result" where
  "factor_body ev s = bnd (unary ev s) (\<lambda>left s. factor_loop ev left s)"

definition factor_loop_body :: "evaluator \<Rightarrow> Value \<Rightarrow> Interpreter \<Rightarrow> (Value \<times> Interpreter) result" where
  "factor_loop_body ev left s =
     bnd (match TOKEN_STAR s) (\<lambda>m s.
     bnd (if m then Ok (True, s) else match TOKEN_SLASH s) (\<lambda>m s.
     bnd (if m then Ok (True, s) else match TOKEN_PERCENT s) (\<lambda>m s.
       if m then
         bnd (previous s) (\<lambda>op s.
         bnd (unary ev s) (\<lambda>right s.
           factor_loop ev (factor_apply (tok_type op) left right) s))
       else Ok (left, s))))"

definition unary_body :: "evaluator \<Rightarrow> Interpreter \<Rightarrow> (Value \<times> Interpreter) result" where
  "unary_body ev s =
     bnd (match TOKEN_BANG s) (\<lambda>m s.
       if m then
         bnd (unary ev s) (\<lambda>val s.
           if type_of val = T_BOOL then Ok (BOOL (\<not> boolean val), s) else Ok (BOOL False, s))
       else
     bnd (match TOKEN_MINUS s) (\<lambda>m s.
       if m then
         bnd (unary ev s) (\<lambda>val s.
           if type_of val = T_NUMBER then Ok (NUMBER (- num val), s) else Ok (val, s))
       else call ev s))"

text \<open>\<^verbatim>\<open>Interpreter::call\<close>: the loop over \<^verbatim>\<open>(\<close>, the argument loop, and the index step.\<close>

definition call_body :: "evaluator \<Rightarrow> Interpreter \<Rightarrow> (Value \<times> Interpreter) result" where
  "call_body ev s =
     bnd (primary ev s) (\<lambda>val s.
     bnd (call_loop ev val s) (\<lambda>val s.
     bnd (match TOKEN_LBRACKET s) (\<lambda>m s.
       if m then
         bnd (expression ev s) (\<lambda>index s.
         bnd (match TOKEN_RBRACKET s) (\<lambda>_ s.
           case index_value val index of
             Ok v \<Rightarrow> Ok (v, s)
           | OutOfFuel \<Rightarrow> OutOfFuel
           | Fault \<Rightarrow> Fault))
       else Ok (val, s))))"

definition call_loop_body :: "evaluator \<Rightarrow> Value \<Rightarrow> Interpreter \<Rightarrow> (Value \<times> Interpreter) result" where
  "call_loop_body ev val s =
     bnd (match TOKEN_LPAREN s) (\<lambda>m s.
       if m then
         (if type_of val = T_STRING \<and> funcs s (str val) \<noteq> None then
            bnd (call_args ev [] s) (\<lambda>args s.
            bnd (callFunction ev (str val) args s) (\<lambda>val s.
              call_loop ev val s))
          else call_loop ev val s)
       else Ok (val, s))"

definition call_args_body :: "evaluator \<Rightarrow> Value list \<Rightarrow> Interpreter \<Rightarrow> (Value list \<times> Interpreter) result" where
  "call_args_body ev args s =
     bnd (match TOKEN_RPAREN s) (\<lambda>m s.
       if m then Ok (args, s)
       else
         bnd (expression ev s) (\<lambda>arg s.
         bnd (match TOKEN_COMMA s) (\<lambda>m s.
           if m then call_args ev (args @ [arg]) s
           else bnd (match TOKEN_RPAREN s) (\<lambda>_ s. Ok (args @ [arg], s)))))"

text \<open>\<^verbatim>\<open>Interpreter::callFunction\<close>. The bound \<^verbatim>\<open>func.bodyEnd\<close> of its loop is read through a
  reference into the function table on every round, so \<open>callFunction_loop\<close> looks the
  function up again.\<close>

definition callFunction_body :: "evaluator \<Rightarrow> string \<Rightarrow> Value list \<Rightarrow> Interpreter \<Rightarrow> (Value \<times> Interpreter) result" where
  "callFunction_body ev name args s =
     (case funcs s name of
        None \<Rightarrow> Ok (NIL, s)
      | Some func \<Rightarrow>
          let savedCurrent = current s in
          bnd (callFunction_loop ev name
                 (s\<lparr>scopes := scopes s @ [bind_params (params func) args Map.empty],
                    current := bodyStart func, hasReturned := False, returnValue := NIL\<rparr>)) (\<lambda>_ s.
            Ok (returnValue s,
                s\<lparr>hasReturned := False, scopes := butlast (scopes s), current := savedCurrent\<rparr>)))"

definition callFunction_loop_body :: "evaluator \<Rightarrow> string \<Rightarrow> Interpreter \<Rightarrow> (unit \<times> Interpreter) result" where
  "callFunction_loop_body ev name s =
     (case funcs s name of
        None \<Rightarrow> Fault
      | Some func \<Rightarrow>
          if current s < bodyEnd func then
            bnd (isAtEnd s) (\<lambda>atEnd s.
              if \<not> atEnd \<and> \<not> hasReturned s
              then bnd (statement ev s) (\<lambda>_ s. callFunction_loop ev name s)
              else Ok ((), s))
          else Ok ((), s))"

text \<open>\<^verbatim>\<open>Interpreter::primary\<close> and the loop of the array literal.\<close>

definition primary_body :: "evaluator \<Rightarrow> Interpreter \<Rightarrow> (Value \<times> Interpreter) result" where
  "primary_body ev s =
     bnd (match TOKEN_NUMBER s) (\<lambda>m s.
       if m then
         bnd (previous s) (\<lambda>t s.
           case stod (tok_value t) of None \<Rightarrow> Fault | Some x \<Rightarrow> Ok (NUMBER x, s))
       else
     bnd (match TOKEN_STRING s) (\<lambda>m s.
       if m then
         bnd (previous s) (\<lambda>t s.
         bnd (interpolate ev (tok_value t) 0 s) (\<lambda>text s. Ok (STRING text, s)))
       else
     bnd (match TOKEN_TRUE s) (\<lambda>m s. if m then Ok (BOOL True, s) else
     bnd (match TOKEN_FALSE s) (\<lambda>m s. if m then Ok (BOOL False, s) else
     bnd (match TOKEN_LBRACKET s) (\<lambda>m s.
       if m then bnd (primary_items ev [] s) (\<lambda>arr s. Ok (ARRAY arr, s))
       else
     bnd (match TOKEN_IDENTIFIER s) (\<lambda>m s.
       if m then
         bnd (previous s) (\<lambda>t s.
           if funcs s (tok_value t) \<noteq> None then Ok (STRING (tok_value t), s)
           else Ok (getVariable (tok_value t) s, s))
       else
     bnd (match TOKEN_LPAREN s) (\<lambda>m s.
       if m then
         bnd (expression ev s) (\<lambda>val s.
         bnd (match TOKEN_RPAREN s) (\<lambda>_ s. Ok (val, s)))
       else Ok (NIL, s))))))))"

definition primary_items_body :: "evaluator \<Rightarrow> Value list \<Rightarrow> Interpreter \<Rightarrow> (Value list \<times> Interpreter) result" where
  "primary_items_body ev arr s =
     bnd (match TOKEN_RBRACKET s) (\<lambda>m s.
       if m then Ok (arr, s)
       else
         bnd (expression ev s) (\<lambda>item s.
         bnd (match TOKEN_COMMA s) (\<lambda>m s.
           if m then primary_items ev (arr @ [item]) s
           else bnd (match TOKEN_RBRACKET s) (\<lambda>_ s. Ok (arr @ [item], s)))))"

text \<open>\<^verbatim>\<open>Interpreter::execute\<close>.\<close>

definition execute_body :: "evaluator \<Rightarrow> Interpreter \<Rightarrow> (unit \<times> Interpreter) result" where
  "execute_body ev s =
     bnd (isAtEnd s) (\<lambda>atEnd s.
       if atEnd then Ok ((), s)
       else bnd (statement ev s) (\<lambda>_ s. execute ev s))"

text \<open>The family without fuel, one more level of fuel, and the family with fuel \<open>n\<close>.\<close>

definition eval_zero :: evaluator where
  "eval_zero =
     \<lparr>statement = (\<lambda>_. OutOfFuel),
      letStatement = (\<lambda>_. OutOfFuel),
      returnStatement = (\<lambda>_. OutOfFuel),
      putsStatement = (\<lambda>_. OutOfFuel),
      block = (\<lambda>_ _. OutOfFuel),
      ifStatement = (\<lambda>_. OutOfFuel),
      whileStatement = (\<lambda>_. OutOfFuel),
      while_loop = (\<lambda>_ _ _ _ _. OutOfFuel),
      forStatement = (\<lambda>_. OutOfFuel),
      for_loop = (\<lambda>_ _ _ _ _ _. OutOfFuel),
      for_body = (\<lambda>_ _. OutOfFuel),
      expression = (\<lambda>_. OutOfFuel),
      logicalOr = (\<lambda>_. OutOfFuel),
      logicalOr_loop = (\<lambda>_ _. OutOfFuel),
      logicalAnd = (\<lambda>_. OutOfFuel),
      logicalAnd_loop = (\<lambda>_ _. OutOfFuel),
      comparison = (\<lambda>_. OutOfFuel),
      comparison_loop = (\<lambda>_ _. OutOfFuel),
      term_expr = (\<lambda>_. OutOfFuel),
      term_loop = (\<lambda>_ _. OutOfFuel),
      factor = (\<lambda>_. OutOfFuel),
      factor_loop = (\<lambda>_ _. OutOfFuel),
      unary = (\<lambda>_. OutOfFuel),
      call = (\<lambda>_. OutOfFuel),
      call_loop = (\<lambda>_ _. OutOfFuel),
      call_args = (\<lambda>_ _. OutOfFuel),
      callFunction = (\<lambda>_ _ _. OutOfFuel),
      callFunction_loop = (\<lambda>_ _. OutOfFuel),
      primary = (\<lambda>_. OutOfFuel),
      primary_items = (\<lambda>_ _. OutOfFuel),
      interpolate = (\<lambda>_ _ _. OutOfFuel),
      execute = (\<lambda>_. OutOfFuel)\<rparr>"

definition eval_step :: "evaluator \<Rightarrow> evaluator" where
  "eval_step ev =
     \<lparr>statement = statement_body ev,
      letStatement = letStatement_body ev,
      returnStatement = returnStatement_body ev,
      putsStatement = putsStatement_body ev,
      block = block_body ev,
      ifStatement = ifStatement_body ev,
      whileStatement = whileStatement_body ev,
      while_loop = while_loop_body ev,
      forStatement = forStatement_body ev,
      for_loop = for_loop_body ev,
      for_body = for_body_body ev,
      expression = expression_body ev,
      logicalOr = logicalOr_body ev,
      logicalOr_loop = logicalOr_loop_body ev,
      logicalAnd = logicalAnd_body ev,
      logicalAnd_loop = logicalAnd_loop_body ev,
      comparison = comparison_body ev,
      comparison_loop = comparison_loop_body ev,
      term_expr = term_expr_body ev,
      term_loop = term_loop_body ev,
      factor = factor_body ev,
      factor_loop = factor_loop_body ev,
      unary = unary_body ev,
      call = call_body ev,
      call_loop = call_loop_body ev,
      call_args = call_args_body ev,
      callFunction = callFunction_body ev,
      callFunction_loop = callFunction_loop_body ev,
      primary = primary_body ev,
      primary_items = primary_items_body ev,
      interpolate = interpolate_body ev,
      execute = execute_body ev\<rparr>"

primrec eval :: "nat \<Rightarrow> evaluator" where
  "eval 0 = eval_zero"
| "eval (Suc n) = eval_step (eval n)"

declare eval.simps [simp del]

lemma eval_Suc:
  "interpolate (eval (Suc n)) = interpolate_body (eval n)"
  "statement (eval (Suc n)) = statement_body (eval n)"
  "letStatement (eval (Suc n)) = letStatement_body (eval n)"
  "returnStatement (eval (Suc n)) = returnStatement_body (eval n)"
  "putsStatement (eval (Suc n)) = putsStatement_body (eval n)"
  "block (eval (Suc n)) = block_body (eval n)"
  "ifStatement (eval (Suc n)) = ifStatement_body (eval n)"
  "whileStatement (eval (Suc n)) = whileStatement_body (eval n)"
  "while_loop (eval (Suc n)) = while_loop_body (eval n)"
  "forStatement (eval (Suc n)) = forStatement_body (eval n)"
  "for_loop (eval (Suc n)) = for_loop_body (eval n)"
  "for_body (eval (Suc n)) = for_body_body (eval n)"
  "expression (eval (Suc n)) = expression_body (eval n)"
  "logicalOr (eval (Suc n)) = logicalOr_body (eval n)"
  "logicalOr_loop (eval (Suc n)) = logicalOr_loop_body (eval n)"
  "logicalAnd (eval (Suc n)) = logicalAnd_body (eval n)"
  "logicalAnd_loop (eval (Suc n)) = logicalAnd_loop_body (eval n)"
  "comparison (eval (Suc n)) = comparison_body (eval n)"
  "comparison_loop (eval (Suc n)) = comparison_loop_body (eval n)"
  "term_expr (eval (Suc n)) = term_expr_body (eval n)"
  "term_loop (eval (Suc n)) = term_loop_body (eval n)"
  "factor (eval (Suc n)) = factor_body (eval n)"
  "factor_loop (eval (Suc n)) = factor_loop_body (eval n)"
  "unary (eval (Suc n)) = unary_body (eval n)"
  "call (eval (Suc n)) = call_body (eval n)"
  "call_loop (eval (Suc n)) = call_loop_body (eval n)"
  "call_args (eval (Suc n)) = call_args_body (eval n)"
  "callFunction (eval (Suc n)) = callFunction_body (eval n)"
  "callFunction_loop (eval (Suc n)) = callFunction_loop_body (eval n)"
  "primary (eval (Suc n)) = primary_body (eval n)"
  "primary_items (eval (Suc n)) = primary_items_body (eval n)"
  "execute (eval (Suc n)) = execute_body (eval n)"
  by (simp_all add: eval.simps eval_step_def)

lemma eval_0:
  "interpolate (eval 0) = (\<lambda>_ _ _. OutOfFuel)"
  "statement (eval 0) = (\<lambda>_. OutOfFuel)"
  "letStatement (eval 0) = (\<lambda>_. OutOfFuel)"
  "returnStatement (eval 0) = (\<lambda>_. OutOfFuel)"
  "putsStatement (eval 0) = (\<lambda>_. OutOfFuel)"
  "block (eval 0) = (\<lambda>_ _. OutOfFuel)"
  "ifStatement (eval 0) = (\<lambda>_. OutOfFuel)"
  "whileStatement (eval 0) = (\<lambda>_. OutOfFuel)"
  "while_loop (eval 0) = (\<lambda>_ _ _ _ _. OutOfFuel)"
  "forStatement (eval 0) = (\<lambda>_. OutOfFuel)"
  "for_loop (eval 0) = (\<lambda>_ _ _ _ _ _. OutOfFuel)"
  "for_body (eval 0) = (\<lambda>_ _. OutOfFuel)"
  "expression (eval 0) = (\<lambda>_. OutOfFuel)"
  "logicalOr (eval 0) = (\<lambda>_. OutOfFuel)"
  "logicalOr_loop (eval 0) = (\<lambda>_ _. OutOfFuel)"
  "logicalAnd (eval 0) = (\<lambda>_. OutOfFuel)"
  "logicalAnd_loop (eval 0) = (\<lambda>_ _. OutOfFuel)"
  "comparison (eval 0) = (\<lambda>_. OutOfFuel)"
  "comparison_loop (eval 0) = (\<lambda>_ _. OutOfFuel)"
  "term_expr (eval 0) = (\<lambda>_. OutOfFuel)"
  "term_loop (eval 0) = (\<lambda>_ _. OutOfFuel)"
  "factor (eval 0) = (\<lambda>_. OutOfFuel)"
  "factor_loop (eval 0) = (\<lambda>_ _. OutOfFuel)"
  "unary (eval 0) = (\<lambda>_. OutOfFuel)"
  "call (eval 0) = (\<lambda>_. OutOfFuel)"
  "call_loop (eval 0) = (\<lambda>_ _. OutOfFuel)"
  "call_args (eval 0) = (\<lambda>_ _. OutOfFuel)"
  "callFunction (eval 0) = (\<lambda>_ _ _. OutOfFuel)"
  "callFunction_loop (eval 0) = (\<lambda>_ _. OutOfFuel)"
  "primary (eval 0) = (\<lambda>_. OutOfFuel)"
  "primary_items (eval 0) = (\<lambda>_ _. OutOfFuel)"
  "execute (eval 0) = (\<lambda>_. OutOfFuel)"
  by (simp_all add: eval.simps eval_zero_def)

lemmas eval_numeral = eval_Suc [of "pred_numeral k", folded numeral_eq_Suc] for k

lemmas body_defs =
  interpolate_body_def statement_body_def letStatement_body_def returnStatement_body_def 
  putsStatement_body_def block_body_def ifStatement_body_def whileStatement_body_def 
  while_loop_body_def forStatement_body_def for_loop_body_def for_body_body_def 
  expression_body_def logicalOr_body_def logicalOr_loop_body_def logicalAnd_body_def 
  logicalAnd_loop_body_def comparison_body_def comparison_loop_body_def term_expr_body_def 
  term_loop_body_def factor_body_def factor_loop_body_def unary_body_def call_body_def 
  call_loop_body_def call_args_body_def callFunction_body_def callFunction_loop_body_def 
  primary_body_def primary_items_body_def execute_body_def

text \<open>The \<^verbatim>\<open>main\<close> function, without the file handling: lex, then execute.\<close>

definition run :: "nat \<Rightarrow> string \<Rightarrow> (unit \<times> Interpreter) result" where
  "run n src = execute (eval n) (Interpreter_init (tokenize src))"

subsection \<open>The for statement as the specification words it\<close>

text \<open>The specification describes the loop of a \<^verbatim>\<open>for\<close> statement as: for integer \<open>i\<close> from
  the truncated start (inclusive) to the truncated end (exclusive), bind the name to \<open>i\<close> as
  a Number, then replay the body statements from the start to the end of the body, stopping
  immediately if a pending return fires. \<open>for_iteration\<close> is one such iteration (it binds,
  replays the body with the body loop of the evaluator \<open>ev\<close>, and puts the cursor back),
  and \<open>for_each\<close> goes through a list of integers in order until a return is pending.\<close>

definition for_iteration ::
  "evaluator \<Rightarrow> string \<Rightarrow> nat \<Rightarrow> nat \<Rightarrow> int \<Rightarrow> Interpreter \<Rightarrow> (unit \<times> Interpreter) result" where
  "for_iteration ev name loopBodyStart loopBodyEnd i s =
     bnd (setVariable name (NUMBER (of_int i)) s) (\<lambda>_ s1.
     bnd (for_body ev loopBodyEnd (s1\<lparr>current := loopBodyStart\<rparr>)) (\<lambda>_ s2.
       Ok ((), s2\<lparr>current := current s1\<rparr>)))"

primrec for_each ::
  "(int \<Rightarrow> Interpreter \<Rightarrow> (unit \<times> Interpreter) result) \<Rightarrow> int list \<Rightarrow> Interpreter
    \<Rightarrow> (unit \<times> Interpreter) result" where
  "for_each iteration [] s = Ok ((), s)"
| "for_each iteration (i # rest) s =
     (if hasReturned s then Ok ((), s)
      else bnd (iteration i s) (\<lambda>_ s. for_each iteration rest s))"

section \<open>Notions of the proofs\<close>

text \<open>The shape of the scope stack: its height and the names bound in every frame but the
  innermost.\<close>

definition shape :: "Interpreter \<Rightarrow> nat \<times> string set list" where
  "shape s = (length (scopes s), map dom (butlast (scopes s)))"

definition keeps :: "('a \<times> Interpreter) result \<Rightarrow> Interpreter \<Rightarrow> bool" where
  "keeps r s \<longleftrightarrow> (\<forall>x s'. r = Ok (x, s') \<longrightarrow> shape s' = shape s)"

text \<open>An evaluator is \<open>good\<close> when each of its functions keeps the shape.\<close>

definition good :: "evaluator \<Rightarrow> bool" where
  "good ev \<longleftrightarrow>
     (\<forall>s. keeps (statement ev s) s)
     \<and> (\<forall>s. keeps (letStatement ev s) s)
     \<and> (\<forall>s. keeps (returnStatement ev s) s)
     \<and> (\<forall>s. keeps (putsStatement ev s) s)
     \<and> (\<forall>a1 s. keeps (block ev a1 s) s)
     \<and> (\<forall>s. keeps (ifStatement ev s) s)
     \<and> (\<forall>s. keeps (whileStatement ev s) s)
     \<and> (\<forall>a1 a2 a3 a4 s. keeps (while_loop ev a1 a2 a3 a4 s) s)
     \<and> (\<forall>s. keeps (forStatement ev s) s)
     \<and> (\<forall>a1 a2 a3 a4 a5 s. keeps (for_loop ev a1 a2 a3 a4 a5 s) s)
     \<and> (\<forall>a1 s. keeps (for_body ev a1 s) s)
     \<and> (\<forall>s. keeps (expression ev s) s)
     \<and> (\<forall>s. keeps (logicalOr ev s) s)
     \<and> (\<forall>a1 s. keeps (logicalOr_loop ev a1 s) s)
     \<and> (\<forall>s. keeps (logicalAnd ev s) s)
     \<and> (\<forall>a1 s. keeps (logicalAnd_loop ev a1 s) s)
     \<and> (\<forall>s. keeps (comparison ev s) s)
     \<and> (\<forall>a1 s. keeps (comparison_loop ev a1 s) s)
     \<and> (\<forall>s. keeps (term_expr ev s) s)
     \<and> (\<forall>a1 s. keeps (term_loop ev a1 s) s)
     \<and> (\<forall>s. keeps (factor ev s) s)
     \<and> (\<forall>a1 s. keeps (factor_loop ev a1 s) s)
     \<and> (\<forall>s. keeps (unary ev s) s)
     \<and> (\<forall>s. keeps (call ev s) s)
     \<and> (\<forall>a1 s. keeps (call_loop ev a1 s) s)
     \<and> (\<forall>a1 s. keeps (call_args ev a1 s) s)
     \<and> (\<forall>a1 a2 s. keeps (callFunction ev a1 a2 s) s)
     \<and> (\<forall>a1 s. keeps (callFunction_loop ev a1 s) s)
     \<and> (\<forall>s. keeps (primary ev s) s)
     \<and> (\<forall>a1 s. keeps (primary_items ev a1 s) s)
     \<and> (\<forall>a1 a2 s. keeps (interpolate ev a1 a2 s) s)
     \<and> (\<forall>s. keeps (execute ev s) s)"

text \<open>More fuel changes no result: \<open>lr r r'\<close> says that \<open>r'\<close> is \<open>r\<close> unless \<open>r\<close> ran out of
  fuel, and \<open>le_ev ev ev'\<close> that every function of \<open>ev'\<close> gives the result of the function
  of \<open>ev\<close> unless that ran out of fuel.\<close>

definition lr :: "'a result \<Rightarrow> 'a result \<Rightarrow> bool" where
  "lr r r' \<longleftrightarrow> (r \<noteq> OutOfFuel \<longrightarrow> r' = r)"

definition le_ev :: "evaluator \<Rightarrow> evaluator \<Rightarrow> bool" where
  "le_ev ev ev' \<longleftrightarrow>
     (\<forall>s. lr (statement ev s) (statement ev' s))
     \<and> (\<forall>s. lr (letStatement ev s) (letStatement ev' s))
     \<and> (\<forall>s. lr (returnStatement ev s) (returnStatement ev' s))
     \<and> (\<forall>s. lr (putsStatement ev s) (putsStatement ev' s))
     \<and> (\<forall>a1 s. lr (block ev a1 s) (block ev' a1 s))
     \<and> (\<forall>s. lr (ifStatement ev s) (ifStatement ev' s))
     \<and> (\<forall>s. lr (whileStatement ev s) (whileStatement ev' s))
     \<and> (\<forall>a1 a2 a3 a4 s. lr (while_loop ev a1 a2 a3 a4 s) (while_loop ev' a1 a2 a3 a4 s))
     \<and> (\<forall>s. lr (forStatement ev s) (forStatement ev' s))
     \<and> (\<forall>a1 a2 a3 a4 a5 s. lr (for_loop ev a1 a2 a3 a4 a5 s) (for_loop ev' a1 a2 a3 a4 a5 s))
     \<and> (\<forall>a1 s. lr (for_body ev a1 s) (for_body ev' a1 s))
     \<and> (\<forall>s. lr (expression ev s) (expression ev' s))
     \<and> (\<forall>s. lr (logicalOr ev s) (logicalOr ev' s))
     \<and> (\<forall>a1 s. lr (logicalOr_loop ev a1 s) (logicalOr_loop ev' a1 s))
     \<and> (\<forall>s. lr (logicalAnd ev s) (logicalAnd ev' s))
     \<and> (\<forall>a1 s. lr (logicalAnd_loop ev a1 s) (logicalAnd_loop ev' a1 s))
     \<and> (\<forall>s. lr (comparison ev s) (comparison ev' s))
     \<and> (\<forall>a1 s. lr (comparison_loop ev a1 s) (comparison_loop ev' a1 s))
     \<and> (\<forall>s. lr (term_expr ev s) (term_expr ev' s))
     \<and> (\<forall>a1 s. lr (term_loop ev a1 s) (term_loop ev' a1 s))
     \<and> (\<forall>s. lr (factor ev s) (factor ev' s))
     \<and> (\<forall>a1 s. lr (factor_loop ev a1 s) (factor_loop ev' a1 s))
     \<and> (\<forall>s. lr (unary ev s) (unary ev' s))
     \<and> (\<forall>s. lr (call ev s) (call ev' s))
     \<and> (\<forall>a1 s. lr (call_loop ev a1 s) (call_loop ev' a1 s))
     \<and> (\<forall>a1 s. lr (call_args ev a1 s) (call_args ev' a1 s))
     \<and> (\<forall>a1 a2 s. lr (callFunction ev a1 a2 s) (callFunction ev' a1 a2 s))
     \<and> (\<forall>a1 s. lr (callFunction_loop ev a1 s) (callFunction_loop ev' a1 s))
     \<and> (\<forall>s. lr (primary ev s) (primary ev' s))
     \<and> (\<forall>a1 s. lr (primary_items ev a1 s) (primary_items ev' a1 s))
     \<and> (\<forall>a1 a2 s. lr (interpolate ev a1 a2 s) (interpolate ev' a1 a2 s))
     \<and> (\<forall>s. lr (execute ev s) (execute ev' s))"

section \<open>Example programs\<close>

text \<open>The texts on which the theorems below are run, and, where a theorem is about an
  expression that follows a function declaration, the state in which the declaration
  leaves the interpreter.\<close>

definition or_program :: string where
  "or_program = ''fn f() { puts 1 return false } true || f()''"

definition and_program :: string where
  "and_program = ''fn f() { puts 1 return true } false && f()''"

definition for_program :: string where
  "for_program = ''for i in 0..5 { puts i }''"

definition for_bool_program :: string where
  "for_bool_program = ''for i in true..5 { puts i }''"

definition local_program :: string where
  "local_program = ''fn f() { y = 5; } f()''"

definition after_declaration :: "string \<Rightarrow> Interpreter" where
  "after_declaration src =
     (Interpreter_init (tokenize src))
       \<lparr>funcs := [''f'' \<mapsto> \<lparr>params = [], bodyStart = 5, bodyEnd = 9\<rparr>], current := 10\<rparr>"

definition output_of :: "(unit \<times> Interpreter) result \<Rightarrow> string list option" where
  "output_of r = (case r of Ok (u, s) \<Rightarrow> Some (stdout s) | OutOfFuel \<Rightarrow> None | Fault \<Rightarrow> None)"

definition while_return_program :: string where
  "while_return_program =
     ''let n = 0 fn c() { n = n + 1 return n < 3 } fn f() { while c() { puts 10 return 1 } puts 20 return 2 } puts f()''"

definition nested_return_program :: string where
  "nested_return_program = ''fn g() { return 7 } fn f() { g() } puts f()''"

definition not_callable_program :: string where
  "not_callable_program = ''5(1)''"

section \<open>Facts about the cursor primitives\<close>

lemma peek_ok: "current s < length (tokens s) \<Longrightarrow> peek s = Ok (tokens s ! current s, s)"
  by (simp add: peek_def)

lemma match_hit:
  "current s < length (tokens s) \<Longrightarrow> tok_type (tokens s ! current s) = ty \<Longrightarrow>
   match ty s = Ok (True, s\<lparr>current := current s + 1\<rparr>)"
  by (simp add: match_def peek_def advance_def)

lemma match_miss:
  "current s < length (tokens s) \<Longrightarrow> tok_type (tokens s ! current s) \<noteq> ty \<Longrightarrow>
   match ty s = Ok (False, s)"
  by (simp add: match_def peek_def)

lemma advance_ok:
  "current s < length (tokens s) \<Longrightarrow>
   advance s = Ok (tokens s ! current s, s\<lparr>current := current s + 1\<rparr>)"
  by (simp add: advance_def)

lemma previous_ok:
  "current s < length (tokens s) \<Longrightarrow>
   previous (s\<lparr>current := Suc (current s)\<rparr>) = Ok (tokens s ! current s, s\<lparr>current := Suc (current s)\<rparr>)"
  by (simp add: previous_def)

lemma eval_Ok_fuel:
  "unary (eval n) s = Ok r \<Longrightarrow> 0 < n"
  "term_expr (eval n) s = Ok r \<Longrightarrow> 0 < n"
  "logicalAnd (eval n) s = Ok r \<Longrightarrow> 0 < n"
  "comparison (eval n) s = Ok r \<Longrightarrow> 0 < n"
  "expression (eval n) s = Ok r \<Longrightarrow> 0 < n"
  "primary (eval n) s = Ok r \<Longrightarrow> 0 < n"
  by (cases n; simp add: eval_0)+

text \<open>The rules that run the evaluator on a concrete token list.\<close>

lemma Suc_Suc_0: "Suc (Suc 0) = 2"
  by simp

lemmas search_numeral =
  setVariable_search.simps(2) [of "pred_numeral k", folded numeral_eq_Suc]
  getVariable_search.simps(2) [of "pred_numeral k", folded numeral_eq_Suc] for k

lemmas exec_simps = Suc_Suc_0 search_numeral eval_Suc [of 0] eval_0
  eval_numeral body_defs Interpreter_init_def mkToken_def
  match_def peek_def advance_def isAtEnd_def previous_def setVariable_def getVariable_def
  functionDeclaration_def Let_def scanBlock.simps fn_scan.simps fn_params.simps find_from.simps
  cast_int_def to_string_int_def nat_digits.simps digit_char_def
  stod_def isdigit_def parse_digits_def digit_val_def braceStep_def shouldExecute_def toBool_def
  compare_values_def term_apply_def factor_apply_def index_value_def

section \<open>The scope stack across statements and calls\<close>

lemma keeps_Ok: "shape s' = shape s \<Longrightarrow> keeps (Ok (x, s')) s"
  by (simp add: keeps_def)

lemma keeps_Fault: "keeps Fault s"
  and keeps_OutOfFuel: "keeps OutOfFuel s"
  by (simp_all add: keeps_def)

lemma keeps_bnd:
  assumes "keeps r s"
    and "\<And>x s1. r = Ok (x, s1) \<Longrightarrow> shape s1 = shape s \<Longrightarrow> keeps (k x s1) s"
  shows "keeps (bnd r k) s"
proof (cases r)
  case (Ok p)
  obtain x s1 where p: "p = (x, s1)" by (cases p)
  from assms(1) have "shape s1 = shape s"
    by (simp add: keeps_def Ok p)
  with assms(2) [of x s1] show ?thesis
    by (simp add: Ok p)
qed (simp_all add: keeps_def)

lemma keeps_if: "(c \<Longrightarrow> keeps a s) \<Longrightarrow> (\<not> c \<Longrightarrow> keeps b s) \<Longrightarrow> keeps (if c then a else b) s"
  by simp

lemma keeps_case_option:
  "(opt = None \<Longrightarrow> keeps a s) \<Longrightarrow> (\<And>y. opt = Some y \<Longrightarrow> keeps (b y) s)
   \<Longrightarrow> keeps (case opt of None \<Rightarrow> a | Some y \<Rightarrow> b y) s"
  by (simp split: option.split)

lemma keeps_case_prod:
  "(\<And>a b. p = (a, b) \<Longrightarrow> keeps (f a b t) s) \<Longrightarrow> keeps ((case p of (a, b) \<Rightarrow> f a b) t) s"
  by (simp split: prod.split)

lemma keeps_case_result:
  "(\<And>v. r = Ok v \<Longrightarrow> keeps (a v) s) \<Longrightarrow> keeps (case r of Ok v \<Rightarrow> a v | OutOfFuel \<Rightarrow> OutOfFuel | Fault \<Rightarrow> Fault) s"
  by (simp add: keeps_def split: result.split)

lemma shape_update [simp]:
  "shape (s\<lparr>current := c\<rparr>) = shape s"
  "shape (s\<lparr>hasReturned := h\<rparr>) = shape s"
  "shape (s\<lparr>returnValue := v\<rparr>) = shape s"
  "shape (s\<lparr>stdout := out\<rparr>) = shape s"
  "shape (s\<lparr>stderr := err\<rparr>) = shape s"
  "shape (s\<lparr>funcs := fs\<rparr>) = shape s"
  by (simp_all add: shape_def)

lemma keeps_peek: "shape t = shape s \<Longrightarrow> keeps (peek t) s"
  by (auto simp: keeps_def peek_def split: if_splits)

lemma keeps_advance: "shape t = shape s \<Longrightarrow> keeps (advance t) s"
  by (auto simp: keeps_def advance_def split: if_splits)

lemma keeps_previous: "shape t = shape s \<Longrightarrow> keeps (previous t) s"
  by (auto simp: keeps_def previous_def split: if_splits)

lemma keeps_isAtEnd: "shape t = shape s \<Longrightarrow> keeps (isAtEnd t) s"
  unfolding isAtEnd_def by (intro keeps_bnd keeps_peek keeps_Ok) simp_all

lemma keeps_match: "shape t = shape s \<Longrightarrow> keeps (match ty t) s"
  unfolding match_def
  by (intro keeps_bnd keeps_peek keeps_if keeps_advance keeps_Ok) simp_all

lemma setVariable_search_shape:
  "setVariable_search k name val scs = Some scs' \<Longrightarrow> k \<le> length scs \<Longrightarrow>
   length scs' = length scs \<and> map dom scs' = map dom scs"
proof (induction k)
  case 0
  then show ?case by simp
next
  case (Suc k)
  show ?case
  proof (cases "(scs ! k) name \<noteq> None")
    case True
    with Suc.prems have scs': "scs' = scs[k := (scs ! k)(name \<mapsto> val)]" by simp
    have "dom ((scs ! k)(name \<mapsto> val)) = dom (scs ! k)"
      using True by auto
    then have "map dom scs' = (map dom scs)[k := dom (scs ! k)]"
      by (simp add: scs' map_update)
    also have "\<dots> = map dom scs"
      using Suc.prems(2) by (simp add: list_update_same_conv)
    finally show ?thesis by (simp add: scs')
  next
    case False
    with Suc show ?thesis by simp
  qed
qed

lemma keeps_setVariable: "shape t = shape s \<Longrightarrow> keeps (setVariable name val t) s"
proof -
  assume st: "shape t = shape s"
  have "shape t' = shape t" if "setVariable name val t = Ok (x, t')" for x t'
  proof (cases "setVariable_search (length (scopes t)) name val (scopes t)")
    case None
    with that have ne: "scopes t \<noteq> []"
      and t': "t' = t\<lparr>scopes := (scopes t)[length (scopes t) - 1 := (last (scopes t))(name \<mapsto> val)]\<rparr>"
      by (auto simp: setVariable_def split: if_splits)
    show ?thesis
      using ne by (simp add: t' shape_def butlast_list_update)
  next
    case (Some scs')
    with that have t': "t' = t\<lparr>scopes := scs'\<rparr>"
      by (simp add: setVariable_def)
    from setVariable_search_shape [OF Some] have "length scs' = length (scopes t)" "map dom scs' = map dom (scopes t)"
      by simp_all
    then show ?thesis
      by (simp add: t' shape_def map_butlast)
  qed
  with st show ?thesis by (simp add: keeps_def)
qed


lemma keeps_rel: "keeps r t \<Longrightarrow> shape t = shape s \<Longrightarrow> keeps r s"
  by (simp add: keeps_def)

lemma bnd_eq_Ok_iff: "bnd r k = Ok z \<longleftrightarrow> (\<exists>x s1. r = Ok (x, s1) \<and> k x s1 = Ok z)"
  by (cases r) (auto simp: bnd_def)

lemma match_scopes: "match ty s = Ok (b, s') \<Longrightarrow> scopes s' = scopes s"
  by (auto simp: match_def peek_def advance_def split: if_splits)

lemma advance_scopes: "advance s = Ok (t, s') \<Longrightarrow> scopes s' = scopes s"
  by (auto simp: advance_def split: if_splits)

lemma fn_params_scopes: "fn_params ps s = Ok (r, s') \<Longrightarrow> scopes s' = scopes s"
proof (induction ps s arbitrary: r s' rule: fn_params.induct)
  case (1 ps s)
  from "1.prems" obtain m s1 where m: "match TOKEN_RPAREN s = Ok (m, s1)"
    and rest1: "(if m then Ok (ps, s1)
       else bnd (advance s1) (\<lambda>param s.
         bnd (match TOKEN_COMMA s) (\<lambda>m s.
           if m then fn_params (ps @ [tok_value param]) s
           else bnd (match TOKEN_RPAREN s) (\<lambda>_ s. Ok (ps @ [tok_value param], s))))) = Ok (r, s')"
    by (subst (asm) fn_params.simps) (auto simp: bnd_eq_Ok_iff)
  have s1: "scopes s1 = scopes s" using m by (rule match_scopes)
  show ?case
  proof (cases m)
    case True
    with rest1 s1 show ?thesis by simp
  next
    case False
    with rest1 obtain param s2 c s3 where a: "advance s1 = Ok (param, s2)"
      and c: "match TOKEN_COMMA s2 = Ok (c, s3)"
      and rest2: "(if c then fn_params (ps @ [tok_value param]) s3
           else bnd (match TOKEN_RPAREN s3) (\<lambda>_ s. Ok (ps @ [tok_value param], s))) = Ok (r, s')"
      by (auto simp: bnd_eq_Ok_iff)
    have s3: "scopes s3 = scopes s"
      using s1 advance_scopes [OF a] match_scopes [OF c] by simp
    show ?thesis
    proof (cases c)
      case True
      with rest2 have "fn_params (ps @ [tok_value param]) s3 = Ok (r, s')" by simp
      from "1.IH" [OF m False a c True this] s3 show ?thesis by simp
    next
      case False
      with rest2 s3 show ?thesis
        by (auto simp: bnd_eq_Ok_iff dest!: match_scopes)
    qed
  qed
qed

lemma keeps_functionDeclaration: "shape t = shape s \<Longrightarrow> keeps (functionDeclaration t) s"
  by (auto simp: keeps_def functionDeclaration_def bnd_eq_Ok_iff shape_def
      split: option.splits dest!: match_scopes advance_scopes fn_params_scopes)

lemmas keeps_intros = keeps_bnd keeps_if keeps_Ok keeps_Fault keeps_OutOfFuel keeps_case_option
  keeps_case_prod keeps_case_result keeps_match keeps_peek keeps_advance keeps_previous
  keeps_isAtEnd keeps_setVariable keeps_functionDeclaration

lemma goodD:
  assumes "good ev" and "shape t = shape s"
  shows "keeps (statement ev t) s"
    and "keeps (letStatement ev t) s"
    and "keeps (returnStatement ev t) s"
    and "keeps (putsStatement ev t) s"
    and "keeps (block ev a1_5 t) s"
    and "keeps (ifStatement ev t) s"
    and "keeps (whileStatement ev t) s"
    and "keeps (while_loop ev a1_8 a2_8 a3_8 a4_8 t) s"
    and "keeps (forStatement ev t) s"
    and "keeps (for_loop ev a1_10 a2_10 a3_10 a4_10 a5_10 t) s"
    and "keeps (for_body ev a1_11 t) s"
    and "keeps (expression ev t) s"
    and "keeps (logicalOr ev t) s"
    and "keeps (logicalOr_loop ev a1_14 t) s"
    and "keeps (logicalAnd ev t) s"
    and "keeps (logicalAnd_loop ev a1_16 t) s"
    and "keeps (comparison ev t) s"
    and "keeps (comparison_loop ev a1_18 t) s"
    and "keeps (term_expr ev t) s"
    and "keeps (term_loop ev a1_20 t) s"
    and "keeps (factor ev t) s"
    and "keeps (factor_loop ev a1_22 t) s"
    and "keeps (unary ev t) s"
    and "keeps (call ev t) s"
    and "keeps (call_loop ev a1_25 t) s"
    and "keeps (call_args ev a1_26 t) s"
    and "keeps (callFunction ev a1_27 a2_27 t) s"
    and "keeps (callFunction_loop ev a1_28 t) s"
    and "keeps (primary ev t) s"
    and "keeps (primary_items ev a1_30 t) s"
    and "keeps (interpolate ev a1_31 a2_31 t) s"
    and "keeps (execute ev t) s"
  using assms(1) by (auto simp: good_def intro: keeps_rel [OF _ assms(2)])

lemma good_statement:
  assumes g: "good ev"
  shows "keeps (statement_body ev s) s"
  unfolding statement_body_def Let_def
  by (intro keeps_intros goodD [OF g] | simp)+

lemma good_letStatement:
  assumes g: "good ev"
  shows "keeps (letStatement_body ev s) s"
  unfolding letStatement_body_def Let_def
  by (intro keeps_intros goodD [OF g] | simp)+

lemma good_returnStatement:
  assumes g: "good ev"
  shows "keeps (returnStatement_body ev s) s"
  unfolding returnStatement_body_def Let_def
  by (intro keeps_intros goodD [OF g] | simp)+

lemma good_putsStatement:
  assumes g: "good ev"
  shows "keeps (putsStatement_body ev s) s"
  unfolding putsStatement_body_def Let_def
  by (intro keeps_intros goodD [OF g] | simp)+

lemma good_block:
  assumes g: "good ev"
  shows "keeps (block_body ev a1 s) s"
  unfolding block_body_def Let_def
  by (intro keeps_intros goodD [OF g] | simp)+

lemma good_ifStatement:
  assumes g: "good ev"
  shows "keeps (ifStatement_body ev s) s"
  unfolding ifStatement_body_def Let_def
  by (intro keeps_intros goodD [OF g] | simp)+

lemma good_whileStatement:
  assumes g: "good ev"
  shows "keeps (whileStatement_body ev s) s"
  unfolding whileStatement_body_def Let_def
  by (intro keeps_intros goodD [OF g] | simp)+

lemma good_while_loop:
  assumes g: "good ev"
  shows "keeps (while_loop_body ev a1 a2 a3 a4 s) s"
  unfolding while_loop_body_def Let_def
  by (intro keeps_intros goodD [OF g] | simp)+

lemma good_forStatement:
  assumes g: "good ev"
  shows "keeps (forStatement_body ev s) s"
  unfolding forStatement_body_def Let_def
  by (intro keeps_intros goodD [OF g] | simp)+

lemma good_for_loop:
  assumes g: "good ev"
  shows "keeps (for_loop_body ev a1 a2 a3 a4 a5 s) s"
  unfolding for_loop_body_def Let_def
  by (intro keeps_intros goodD [OF g] | simp)+

lemma good_for_body:
  assumes g: "good ev"
  shows "keeps (for_body_body ev a1 s) s"
  unfolding for_body_body_def Let_def
  by (intro keeps_intros goodD [OF g] | simp)+

lemma good_expression:
  assumes g: "good ev"
  shows "keeps (expression_body ev s) s"
  unfolding expression_body_def Let_def
  by (intro keeps_intros goodD [OF g] | simp)+

lemma good_logicalOr:
  assumes g: "good ev"
  shows "keeps (logicalOr_body ev s) s"
  unfolding logicalOr_body_def Let_def
  by (intro keeps_intros goodD [OF g] | simp)+

lemma good_logicalOr_loop:
  assumes g: "good ev"
  shows "keeps (logicalOr_loop_body ev a1 s) s"
  unfolding logicalOr_loop_body_def Let_def
  by (intro keeps_intros goodD [OF g] | simp)+

lemma good_logicalAnd:
  assumes g: "good ev"
  shows "keeps (logicalAnd_body ev s) s"
  unfolding logicalAnd_body_def Let_def
  by (intro keeps_intros goodD [OF g] | simp)+

lemma good_logicalAnd_loop:
  assumes g: "good ev"
  shows "keeps (logicalAnd_loop_body ev a1 s) s"
  unfolding logicalAnd_loop_body_def Let_def
  by (intro keeps_intros goodD [OF g] | simp)+

lemma good_comparison:
  assumes g: "good ev"
  shows "keeps (comparison_body ev s) s"
  unfolding comparison_body_def Let_def
  by (intro keeps_intros goodD [OF g] | simp)+

lemma good_comparison_loop:
  assumes g: "good ev"
  shows "keeps (comparison_loop_body ev a1 s) s"
  unfolding comparison_loop_body_def Let_def
  by (intro keeps_intros goodD [OF g] | simp)+

lemma good_term_expr:
  assumes g: "good ev"
  shows "keeps (term_expr_body ev s) s"
  unfolding term_expr_body_def Let_def
  by (intro keeps_intros goodD [OF g] | simp)+

lemma good_term_loop:
  assumes g: "good ev"
  shows "keeps (term_loop_body ev a1 s) s"
  unfolding term_loop_body_def Let_def
  by (intro keeps_intros goodD [OF g] | simp)+

lemma good_factor:
  assumes g: "good ev"
  shows "keeps (factor_body ev s) s"
  unfolding factor_body_def Let_def
  by (intro keeps_intros goodD [OF g] | simp)+

lemma good_factor_loop:
  assumes g: "good ev"
  shows "keeps (factor_loop_body ev a1 s) s"
  unfolding factor_loop_body_def Let_def
  by (intro keeps_intros goodD [OF g] | simp)+

lemma good_unary:
  assumes g: "good ev"
  shows "keeps (unary_body ev s) s"
  unfolding unary_body_def Let_def
  by (intro keeps_intros goodD [OF g] | simp)+

lemma good_call:
  assumes g: "good ev"
  shows "keeps (call_body ev s) s"
  unfolding call_body_def Let_def
  by (intro keeps_intros goodD [OF g] | simp)+

lemma good_call_loop:
  assumes g: "good ev"
  shows "keeps (call_loop_body ev a1 s) s"
  unfolding call_loop_body_def Let_def
  by (intro keeps_intros goodD [OF g] | simp)+

lemma good_call_args:
  assumes g: "good ev"
  shows "keeps (call_args_body ev a1 s) s"
  unfolding call_args_body_def Let_def
  by (intro keeps_intros goodD [OF g] | simp)+

lemma good_callFunction_loop:
  assumes g: "good ev"
  shows "keeps (callFunction_loop_body ev a1 s) s"
  unfolding callFunction_loop_body_def Let_def
  by (intro keeps_intros goodD [OF g] | simp)+

lemma good_primary:
  assumes g: "good ev"
  shows "keeps (primary_body ev s) s"
  unfolding primary_body_def Let_def
  by (intro keeps_intros goodD [OF g] | simp)+

lemma good_primary_items:
  assumes g: "good ev"
  shows "keeps (primary_items_body ev a1 s) s"
  unfolding primary_items_body_def Let_def
  by (intro keeps_intros goodD [OF g] | simp)+

lemma good_interpolate:
  assumes g: "good ev"
  shows "keeps (interpolate_body ev a1 a2 s) s"
  unfolding interpolate_body_def Let_def
  by (intro keeps_intros goodD [OF g] | simp)+

lemma good_execute:
  assumes g: "good ev"
  shows "keeps (execute_body ev s) s"
  unfolding execute_body_def Let_def
  by (intro keeps_intros goodD [OF g] | simp)+


lemma callFunction_frames:
  assumes g: "good ev" and call: "callFunction_body ev name args s = Ok (v, s')"
  shows "map dom (scopes s') = map dom (scopes s) \<and> current s' = current s"
proof (cases "funcs s name")
  case None
  with call show ?thesis by (simp add: callFunction_body_def)
next
  case (Some func)
  let ?s0 = "s\<lparr>scopes := scopes s @ [bind_params (params func) args Map.empty],
      current := bodyStart func, hasReturned := False, returnValue := NIL\<rparr>"
  from call Some obtain u s1 where loop: "callFunction_loop ev name ?s0 = Ok (u, s1)"
    and s': "s' = s1\<lparr>hasReturned := False, scopes := butlast (scopes s1), current := current s\<rparr>"
    by (auto simp: callFunction_body_def Let_def bnd_eq_Ok_iff)
  from goodD(28) [OF g refl, of name ?s0] loop have "shape s1 = shape ?s0"
    by (simp add: keeps_def)
  then have "map dom (butlast (scopes s1)) = map dom (scopes s)"
    by (simp add: shape_def)
  then show ?thesis by (simp add: s')
qed

lemma good_callFunction:
  assumes g: "good ev"
  shows "keeps (callFunction_body ev name args s) s"
  unfolding keeps_def
proof (intro allI impI)
  fix v s'
  assume "callFunction_body ev name args s = Ok (v, s')"
  from callFunction_frames [OF g this] have "map dom (scopes s') = map dom (scopes s)" by simp
  then show "shape s' = shape s"
    by (metis length_map map_butlast shape_def)
qed

lemmas good_bodies = good_statement good_letStatement good_returnStatement good_putsStatement good_block good_ifStatement good_whileStatement good_while_loop good_forStatement good_for_loop good_for_body good_expression good_logicalOr good_logicalOr_loop good_logicalAnd good_logicalAnd_loop good_comparison good_comparison_loop good_term_expr good_term_loop good_factor good_factor_loop good_unary good_call good_call_loop good_call_args good_callFunction_loop good_primary good_primary_items good_interpolate good_execute good_callFunction

lemma good_eval_zero: "good eval_zero"
  by (simp add: good_def eval_zero_def keeps_OutOfFuel)

lemma good_eval_step:
  assumes g: "good ev"
  shows "good (eval_step ev)"
  unfolding good_def by (simp add: eval_step_def good_bodies [OF g])

lemma good_eval: "good (eval n)"
  by (induction n) (simp_all add: eval.simps good_eval_zero good_eval_step)

section \<open>Fuel\<close>

lemma lr_refl: "lr r r"
  by (simp add: lr_def)

lemma lr_OutOfFuel: "lr OutOfFuel r"
  by (simp add: lr_def)

lemma lr_trans: "lr a b \<Longrightarrow> lr b c \<Longrightarrow> lr a c"
  by (auto simp: lr_def)

lemma lr_Ok: "lr r r' \<Longrightarrow> r = Ok x \<Longrightarrow> r' = Ok x"
  by (simp add: lr_def)

lemma lr_bnd:
  assumes "lr r r'" and "\<And>x s. r = Ok (x, s) \<Longrightarrow> lr (k x s) (k' x s)"
  shows "lr (bnd r k) (bnd r' k')"
proof (cases r)
  case (Ok p)
  obtain x s where p: "p = (x, s)" by (cases p)
  from assms(1) have "r' = Ok (x, s)" by (simp add: lr_def Ok p)
  with assms(2) [of x s] show ?thesis by (simp add: Ok p)
next
  case OutOfFuel
  then show ?thesis by (simp add: lr_def)
next
  case Fault
  with assms(1) have "r' = Fault" by (simp add: lr_def)
  with Fault show ?thesis by (simp add: lr_def)
qed

lemma lr_if:
  "(c \<Longrightarrow> lr a a') \<Longrightarrow> (\<not> c \<Longrightarrow> lr b b') \<Longrightarrow> lr (if c then a else b) (if c then a' else b')"
  by simp

lemma lr_case_option:
  "(opt = None \<Longrightarrow> lr a a') \<Longrightarrow> (\<And>y. opt = Some y \<Longrightarrow> lr (b y) (b' y))
   \<Longrightarrow> lr (case opt of None \<Rightarrow> a | Some y \<Rightarrow> b y) (case opt of None \<Rightarrow> a' | Some y \<Rightarrow> b' y)"
  by (simp split: option.split)

lemma lr_case_prod:
  "(\<And>a b. p = (a, b) \<Longrightarrow> lr (f a b t) (f' a b t))
   \<Longrightarrow> lr ((case p of (a, b) \<Rightarrow> f a b) t) ((case p of (a, b) \<Rightarrow> f' a b) t)"
  by (simp split: prod.split)

lemmas lr_intros = lr_refl lr_bnd lr_if lr_case_option lr_case_prod

lemma le_evD:
  assumes "le_ev ev ev'"
  shows "lr (statement ev s) (statement ev' s)"
    and "lr (letStatement ev s) (letStatement ev' s)"
    and "lr (returnStatement ev s) (returnStatement ev' s)"
    and "lr (putsStatement ev s) (putsStatement ev' s)"
    and "lr (block ev a1_5 s) (block ev' a1_5 s)"
    and "lr (ifStatement ev s) (ifStatement ev' s)"
    and "lr (whileStatement ev s) (whileStatement ev' s)"
    and "lr (while_loop ev a1_8 a2_8 a3_8 a4_8 s) (while_loop ev' a1_8 a2_8 a3_8 a4_8 s)"
    and "lr (forStatement ev s) (forStatement ev' s)"
    and "lr (for_loop ev a1_10 a2_10 a3_10 a4_10 a5_10 s) (for_loop ev' a1_10 a2_10 a3_10 a4_10 a5_10 s)"
    and "lr (for_body ev a1_11 s) (for_body ev' a1_11 s)"
    and "lr (expression ev s) (expression ev' s)"
    and "lr (logicalOr ev s) (logicalOr ev' s)"
    and "lr (logicalOr_loop ev a1_14 s) (logicalOr_loop ev' a1_14 s)"
    and "lr (logicalAnd ev s) (logicalAnd ev' s)"
    and "lr (logicalAnd_loop ev a1_16 s) (logicalAnd_loop ev' a1_16 s)"
    and "lr (comparison ev s) (comparison ev' s)"
    and "lr (comparison_loop ev a1_18 s) (comparison_loop ev' a1_18 s)"
    and "lr (term_expr ev s) (term_expr ev' s)"
    and "lr (term_loop ev a1_20 s) (term_loop ev' a1_20 s)"
    and "lr (factor ev s) (factor ev' s)"
    and "lr (factor_loop ev a1_22 s) (factor_loop ev' a1_22 s)"
    and "lr (unary ev s) (unary ev' s)"
    and "lr (call ev s) (call ev' s)"
    and "lr (call_loop ev a1_25 s) (call_loop ev' a1_25 s)"
    and "lr (call_args ev a1_26 s) (call_args ev' a1_26 s)"
    and "lr (callFunction ev a1_27 a2_27 s) (callFunction ev' a1_27 a2_27 s)"
    and "lr (callFunction_loop ev a1_28 s) (callFunction_loop ev' a1_28 s)"
    and "lr (primary ev s) (primary ev' s)"
    and "lr (primary_items ev a1_30 s) (primary_items ev' a1_30 s)"
    and "lr (interpolate ev a1_31 a2_31 s) (interpolate ev' a1_31 a2_31 s)"
    and "lr (execute ev s) (execute ev' s)"
  using assms by (simp_all add: le_ev_def)

lemma mono_statement:
  assumes le: "le_ev ev ev'"
  shows "lr (statement_body ev s) (statement_body ev' s)"
  unfolding statement_body_def Let_def
  by (intro lr_intros le_evD [OF le] | simp)+

lemma mono_letStatement:
  assumes le: "le_ev ev ev'"
  shows "lr (letStatement_body ev s) (letStatement_body ev' s)"
  unfolding letStatement_body_def Let_def
  by (intro lr_intros le_evD [OF le] | simp)+

lemma mono_returnStatement:
  assumes le: "le_ev ev ev'"
  shows "lr (returnStatement_body ev s) (returnStatement_body ev' s)"
  unfolding returnStatement_body_def Let_def
  by (intro lr_intros le_evD [OF le] | simp)+

lemma mono_putsStatement:
  assumes le: "le_ev ev ev'"
  shows "lr (putsStatement_body ev s) (putsStatement_body ev' s)"
  unfolding putsStatement_body_def Let_def
  by (intro lr_intros le_evD [OF le] | simp)+

lemma mono_block:
  assumes le: "le_ev ev ev'"
  shows "lr (block_body ev a1 s) (block_body ev' a1 s)"
  unfolding block_body_def Let_def
  by (intro lr_intros le_evD [OF le] | simp)+

lemma mono_ifStatement:
  assumes le: "le_ev ev ev'"
  shows "lr (ifStatement_body ev s) (ifStatement_body ev' s)"
  unfolding ifStatement_body_def Let_def
  by (intro lr_intros le_evD [OF le] | simp)+

lemma mono_whileStatement:
  assumes le: "le_ev ev ev'"
  shows "lr (whileStatement_body ev s) (whileStatement_body ev' s)"
  unfolding whileStatement_body_def Let_def
  by (intro lr_intros le_evD [OF le] | simp)+

lemma mono_while_loop:
  assumes le: "le_ev ev ev'"
  shows "lr (while_loop_body ev a1 a2 a3 a4 s) (while_loop_body ev' a1 a2 a3 a4 s)"
  unfolding while_loop_body_def Let_def
  by (intro lr_intros le_evD [OF le] | simp)+

lemma mono_forStatement:
  assumes le: "le_ev ev ev'"
  shows "lr (forStatement_body ev s) (forStatement_body ev' s)"
  unfolding forStatement_body_def Let_def
  by (intro lr_intros le_evD [OF le] | simp)+

lemma mono_for_loop:
  assumes le: "le_ev ev ev'"
  shows "lr (for_loop_body ev a1 a2 a3 a4 a5 s) (for_loop_body ev' a1 a2 a3 a4 a5 s)"
  unfolding for_loop_body_def Let_def
  by (intro lr_intros le_evD [OF le] | simp)+

lemma mono_for_body:
  assumes le: "le_ev ev ev'"
  shows "lr (for_body_body ev a1 s) (for_body_body ev' a1 s)"
  unfolding for_body_body_def Let_def
  by (intro lr_intros le_evD [OF le] | simp)+

lemma mono_expression:
  assumes le: "le_ev ev ev'"
  shows "lr (expression_body ev s) (expression_body ev' s)"
  unfolding expression_body_def Let_def
  by (intro lr_intros le_evD [OF le] | simp)+

lemma mono_logicalOr:
  assumes le: "le_ev ev ev'"
  shows "lr (logicalOr_body ev s) (logicalOr_body ev' s)"
  unfolding logicalOr_body_def Let_def
  by (intro lr_intros le_evD [OF le] | simp)+

lemma mono_logicalOr_loop:
  assumes le: "le_ev ev ev'"
  shows "lr (logicalOr_loop_body ev a1 s) (logicalOr_loop_body ev' a1 s)"
  unfolding logicalOr_loop_body_def Let_def
  by (intro lr_intros le_evD [OF le] | simp)+

lemma mono_logicalAnd:
  assumes le: "le_ev ev ev'"
  shows "lr (logicalAnd_body ev s) (logicalAnd_body ev' s)"
  unfolding logicalAnd_body_def Let_def
  by (intro lr_intros le_evD [OF le] | simp)+

lemma mono_logicalAnd_loop:
  assumes le: "le_ev ev ev'"
  shows "lr (logicalAnd_loop_body ev a1 s) (logicalAnd_loop_body ev' a1 s)"
  unfolding logicalAnd_loop_body_def Let_def
  by (intro lr_intros le_evD [OF le] | simp)+

lemma mono_comparison:
  assumes le: "le_ev ev ev'"
  shows "lr (comparison_body ev s) (comparison_body ev' s)"
  unfolding comparison_body_def Let_def
  by (intro lr_intros le_evD [OF le] | simp)+

lemma mono_comparison_loop:
  assumes le: "le_ev ev ev'"
  shows "lr (comparison_loop_body ev a1 s) (comparison_loop_body ev' a1 s)"
  unfolding comparison_loop_body_def Let_def
  by (intro lr_intros le_evD [OF le] | simp)+

lemma mono_term_expr:
  assumes le: "le_ev ev ev'"
  shows "lr (term_expr_body ev s) (term_expr_body ev' s)"
  unfolding term_expr_body_def Let_def
  by (intro lr_intros le_evD [OF le] | simp)+

lemma mono_term_loop:
  assumes le: "le_ev ev ev'"
  shows "lr (term_loop_body ev a1 s) (term_loop_body ev' a1 s)"
  unfolding term_loop_body_def Let_def
  by (intro lr_intros le_evD [OF le] | simp)+

lemma mono_factor:
  assumes le: "le_ev ev ev'"
  shows "lr (factor_body ev s) (factor_body ev' s)"
  unfolding factor_body_def Let_def
  by (intro lr_intros le_evD [OF le] | simp)+

lemma mono_factor_loop:
  assumes le: "le_ev ev ev'"
  shows "lr (factor_loop_body ev a1 s) (factor_loop_body ev' a1 s)"
  unfolding factor_loop_body_def Let_def
  by (intro lr_intros le_evD [OF le] | simp)+

lemma mono_unary:
  assumes le: "le_ev ev ev'"
  shows "lr (unary_body ev s) (unary_body ev' s)"
  unfolding unary_body_def Let_def
  by (intro lr_intros le_evD [OF le] | simp)+

lemma mono_call:
  assumes le: "le_ev ev ev'"
  shows "lr (call_body ev s) (call_body ev' s)"
  unfolding call_body_def Let_def
  by (intro lr_intros le_evD [OF le] | simp)+

lemma mono_call_loop:
  assumes le: "le_ev ev ev'"
  shows "lr (call_loop_body ev a1 s) (call_loop_body ev' a1 s)"
  unfolding call_loop_body_def Let_def
  by (intro lr_intros le_evD [OF le] | simp)+

lemma mono_call_args:
  assumes le: "le_ev ev ev'"
  shows "lr (call_args_body ev a1 s) (call_args_body ev' a1 s)"
  unfolding call_args_body_def Let_def
  by (intro lr_intros le_evD [OF le] | simp)+

lemma mono_callFunction:
  assumes le: "le_ev ev ev'"
  shows "lr (callFunction_body ev a1 a2 s) (callFunction_body ev' a1 a2 s)"
  unfolding callFunction_body_def Let_def
  by (intro lr_intros le_evD [OF le] | simp)+

lemma mono_callFunction_loop:
  assumes le: "le_ev ev ev'"
  shows "lr (callFunction_loop_body ev a1 s) (callFunction_loop_body ev' a1 s)"
  unfolding callFunction_loop_body_def Let_def
  by (intro lr_intros le_evD [OF le] | simp)+

lemma mono_primary:
  assumes le: "le_ev ev ev'"
  shows "lr (primary_body ev s) (primary_body ev' s)"
  unfolding primary_body_def Let_def
  by (intro lr_intros le_evD [OF le] | simp)+

lemma mono_primary_items:
  assumes le: "le_ev ev ev'"
  shows "lr (primary_items_body ev a1 s) (primary_items_body ev' a1 s)"
  unfolding primary_items_body_def Let_def
  by (intro lr_intros le_evD [OF le] | simp)+

lemma mono_interpolate:
  assumes le: "le_ev ev ev'"
  shows "lr (interpolate_body ev a1 a2 s) (interpolate_body ev' a1 a2 s)"
  unfolding interpolate_body_def Let_def
  by (intro lr_intros le_evD [OF le] | simp)+

lemma mono_execute:
  assumes le: "le_ev ev ev'"
  shows "lr (execute_body ev s) (execute_body ev' s)"
  unfolding execute_body_def Let_def
  by (intro lr_intros le_evD [OF le] | simp)+

lemmas mono_bodies = mono_statement mono_letStatement mono_returnStatement mono_putsStatement mono_block mono_ifStatement mono_whileStatement mono_while_loop mono_forStatement mono_for_loop mono_for_body mono_expression mono_logicalOr mono_logicalOr_loop mono_logicalAnd mono_logicalAnd_loop mono_comparison mono_comparison_loop mono_term_expr mono_term_loop mono_factor mono_factor_loop mono_unary mono_call mono_call_loop mono_call_args mono_callFunction mono_callFunction_loop mono_primary mono_primary_items mono_interpolate mono_execute

lemma le_ev_zero: "le_ev eval_zero ev"
  by (simp add: le_ev_def eval_zero_def lr_OutOfFuel)

lemma le_ev_step:
  assumes le: "le_ev ev ev'"
  shows "le_ev (eval_step ev) (eval_step ev')"
  unfolding le_ev_def by (simp add: eval_step_def mono_bodies [OF le])

lemma le_ev_add: "le_ev (eval n) (eval (n + k))"
  by (induction n) (simp_all add: eval.simps le_ev_zero le_ev_step)

lemma le_ev_le: "n \<le> m \<Longrightarrow> le_ev (eval n) (eval m)"
  using le_ev_add [of n "m - n"] by simp

section \<open>The pending return across a nested call\<close>

lemma while_return_program_tokens:
  "tokenize while_return_program = map (\<lambda>(ty, v). mkToken ty v 1)
     [(TOKEN_LET, ''let''), (TOKEN_IDENTIFIER, ''n''), (TOKEN_EQUAL, ''=''),
      (TOKEN_NUMBER, ''0''), (TOKEN_FN, ''fn''), (TOKEN_IDENTIFIER, ''c''),
      (TOKEN_LPAREN, ''(''), (TOKEN_RPAREN, '')''), (TOKEN_LBRACE, ''{''),
      (TOKEN_IDENTIFIER, ''n''), (TOKEN_EQUAL, ''=''),
      (TOKEN_IDENTIFIER, ''n''), (TOKEN_PLUS, ''+''), (TOKEN_NUMBER, ''1''),
      (TOKEN_RETURN, ''return''), (TOKEN_IDENTIFIER, ''n''),
      (TOKEN_LESS, ''<''), (TOKEN_NUMBER, ''3''), (TOKEN_RBRACE, ''}''),
      (TOKEN_FN, ''fn''), (TOKEN_IDENTIFIER, ''f''), (TOKEN_LPAREN, ''(''),
      (TOKEN_RPAREN, '')''), (TOKEN_LBRACE, ''{''), (TOKEN_WHILE, ''while''),
      (TOKEN_IDENTIFIER, ''c''), (TOKEN_LPAREN, ''(''), (TOKEN_RPAREN, '')''),
      (TOKEN_LBRACE, ''{''), (TOKEN_PUTS, ''puts''), (TOKEN_NUMBER, ''10''),
      (TOKEN_RETURN, ''return''), (TOKEN_NUMBER, ''1''), (TOKEN_RBRACE, ''}''),
      (TOKEN_PUTS, ''puts''), (TOKEN_NUMBER, ''20''),
      (TOKEN_RETURN, ''return''), (TOKEN_NUMBER, ''2''), (TOKEN_RBRACE, ''}''),
      (TOKEN_PUTS, ''puts''), (TOKEN_IDENTIFIER, ''f''), (TOKEN_LPAREN, ''(''),
      (TOKEN_RPAREN, '')''), (TOKEN_EOF, [])]"
  unfolding while_return_program_def by code_simp

lemma nested_return_program_tokens:
  "tokenize nested_return_program = map (\<lambda>(ty, v). mkToken ty v 1)
     [(TOKEN_FN, ''fn''), (TOKEN_IDENTIFIER, ''g''), (TOKEN_LPAREN, ''(''),
      (TOKEN_RPAREN, '')''), (TOKEN_LBRACE, ''{''), (TOKEN_RETURN, ''return''),
      (TOKEN_NUMBER, ''7''), (TOKEN_RBRACE, ''}''), (TOKEN_FN, ''fn''),
      (TOKEN_IDENTIFIER, ''f''), (TOKEN_LPAREN, ''(''), (TOKEN_RPAREN, '')''),
      (TOKEN_LBRACE, ''{''), (TOKEN_IDENTIFIER, ''g''), (TOKEN_LPAREN, ''(''),
      (TOKEN_RPAREN, '')''), (TOKEN_RBRACE, ''}''), (TOKEN_PUTS, ''puts''),
      (TOKEN_IDENTIFIER, ''f''), (TOKEN_LPAREN, ''(''), (TOKEN_RPAREN, '')''),
      (TOKEN_EOF, [])]"
  unfolding nested_return_program_def by code_simp

text \<open>Claim C6 says that a call yields Nil when no return statement has run in it. In
  \<^verbatim>\<open>fn g() { return 7 } fn f() { g() } puts f()\<close> the body of \<^verbatim>\<open>f\<close> runs no return statement,
  so \<^verbatim>\<open>f()\<close> should yield Nil and the program should print \<^verbatim>\<open>nil\<close>. The slot
  \<^verbatim>\<open>returnValue\<close> is one field for all calls: the call of \<^verbatim>\<open>g\<close> leaves 7 in it,
  \<^verbatim>\<open>callFunction\<close> reads it back at the end of \<^verbatim>\<open>f\<close>, and the program prints 7.\<close>

theorem nested_return_program_run:
  "output_of (run 45 nested_return_program) = Some [''7'']"
  by (simp add: run_def output_of_def nested_return_program_tokens exec_simps)

text \<open>Claim C1 says that once a return statement has run, no further statement of that call
  runs, also when the condition of a \<^verbatim>\<open>while\<close> loop is evaluated again and calls a function.
  In \<open>while_return_program\<close> the call \<^verbatim>\<open>f()\<close> should print 10 once and yield 1. The
  second evaluation of the condition calls \<^verbatim>\<open>c\<close>, and \<^verbatim>\<open>callFunction\<close> sets
  \<^verbatim>\<open>hasReturned = false\<close>: the body runs a second time, the statements after the loop run,
  and \<^verbatim>\<open>f()\<close> yields 2.\<close>

theorem while_return_program_run:
  "output_of (run 60 while_return_program) = Some [''10'', ''10'', ''20'', ''2'']"
  by (simp add: run_def output_of_def while_return_program_tokens exec_simps)

section \<open>The lexer on an unterminated string literal\<close>

lemma skipWhitespace_quote:
  "pos < length src \<Longrightarrow> src ! pos = CHR 0x22 \<Longrightarrow> skipWhitespace src pos line = (pos, line)"
  by (subst skipWhitespace.simps) (simp add: isspace_def)

lemma nextToken_quote:
  "src ! pos = CHR 0x22 \<Longrightarrow> nextToken src pos line = string_tok src pos line"
  by (simp add: nextToken_def isdigit_def isalpha_def)

lemma string_loop_no_quote:
  "CHR 0x22 \<notin> set (drop pos src) \<Longrightarrow> length src \<le> snd (string_loop src pos acc)"
proof (induction src pos acc rule: string_loop.induct)
  case (1 src pos acc)
  show ?case
  proof (cases "pos < length src")
    case False
    then show ?thesis by (subst string_loop.simps) simp
  next
    case True
    then have "src ! pos \<in> set (drop pos src)"
      by (metis Cons_nth_drop_Suc list.set_intros(1))
    with "1.prems" have nq: "src ! pos \<noteq> CHR 0x22" by auto
    have rest: "CHR 0x22 \<notin> set (drop (pos + k) src)" for k
    proof -
      have "set (drop (pos + k) src) \<subseteq> set (drop pos src)"
        by (rule set_drop_subset_set_drop) simp
      with "1.prems" show ?thesis by auto
    qed
    show ?thesis
      apply (subst string_loop.simps)
      using True nq "1.IH" rest [of 1] rest [of 2] by auto
  qed
qed

text \<open>Claim C2, as stated, says that lexing a text with an unterminated string literal fails
  with an \<^verbatim>\<open>UnterminatedStringError\<close>. The lexer has no failing path: on the text
  \<^verbatim>\<open>"abc\<close> (an opening quote and no closing one) it returns two tokens.\<close>

theorem tokenize_unterminated_counterexample:
  "tokenize (CHR 0x22 # ''abc'') = [mkToken TOKEN_STRING ''abc'' 1, mkToken TOKEN_EOF '''' 1]"
  by code_simp

text \<open>Claim C2, amended: when the lexer stands at an opening quote (\<open>src ! pos\<close>) and the
  loop of \<^verbatim>\<open>Lexer::string\<close> reaches the end of the input without finding the closing
  quote, lexing does not fail: the main loop appends one \<^verbatim>\<open>TOKEN_STRING\<close> token that holds
  the rest of the text (escapes processed) and ends normally, after which \<open>tokenize\<close>
  appends \<^verbatim>\<open>TOKEN_EOF\<close>. (By \<open>string_loop_no_quote\<close> the loop reaches the end whenever no
  quote follows the opening one; it also does when every later quote is escaped.)\<close>

theorem tokenize_unterminated_string:
  assumes "pos < length src" and "src ! pos = CHR 0x22"
    and "length src \<le> snd (string_loop src (pos + 1) [])"
  shows "tokenize_loop src pos line toks =
    (toks @ [mkToken TOKEN_STRING (fst (string_loop src (pos + 1) [])) line], line)"
proof -
  obtain lit pos' where sl: "string_loop src (pos + 1) [] = (lit, pos')"
    by (cases "string_loop src (pos + 1) []")
  with assms(3) have end_reached: "length src \<le> pos'" by simp
  have tok: "nextToken src pos line = (mkToken TOKEN_STRING lit line, pos' + 1)"
    using assms(2) sl by (simp add: nextToken_quote string_tok_def)
  have stop: "tokenize_loop src (pos' + 1) line (toks @ [mkToken TOKEN_STRING lit line]) =
      (toks @ [mkToken TOKEN_STRING lit line], line)"
    using end_reached by (subst tokenize_loop.simps) simp
  have "tokenize_loop src pos line toks =
      tokenize_loop src (pos' + 1) line (toks @ [mkToken TOKEN_STRING lit line])"
    using assms(1,2) tok
    by (subst tokenize_loop.simps) (simp add: skipWhitespace_quote)
  with stop sl show ?thesis by simp
qed

theorem tokenize_unterminated_string_witness:
  "0 < length (CHR 0x22 # ''abc'') \<and> (CHR 0x22 # ''abc'') ! 0 = CHR 0x22
   \<and> length (CHR 0x22 # ''abc'') \<le> snd (string_loop (CHR 0x22 # ''abc'') (0 + 1) [])
   \<and> tokenize_loop (CHR 0x22 # ''abc'') 0 1 [] = ([mkToken TOKEN_STRING ''abc'' 1], 1)"
proof -
  have sl: "string_loop (CHR 0x22 # ''abc'') (Suc 0) [] = (''abc'', 4)"
    by code_simp
  have "tokenize_loop (CHR 0x22 # ''abc'') 0 1 [] =
      ([] @ [mkToken TOKEN_STRING (fst (string_loop (CHR 0x22 # ''abc'') (0 + 1) [])) 1], 1)"
    by (rule tokenize_unterminated_string) (simp_all add: sl)
  then show ?thesis by (simp add: sl)
qed

section \<open>Calls on a value that is not callable\<close>

lemma call_loop_stop:
  assumes "current s < length (tokens s)" and "tok_type (tokens s ! current s) \<noteq> TOKEN_LPAREN"
  shows "call_loop (eval (Suc n)) val s = Ok (val, s)"
  using assms by (simp add: eval_Suc call_loop_body_def match_miss)

lemma call_loop_not_callable:
  assumes "current s < length (tokens s)" and "tok_type (tokens s ! current s) = TOKEN_LPAREN"
    and "\<not> (type_of val = T_STRING \<and> funcs s (str val) \<noteq> None)"
  shows "call_loop (eval (Suc n)) val s = call_loop (eval n) val (s\<lparr>current := current s + 1\<rparr>)"
  using assms by (auto simp: eval_Suc call_loop_body_def match_hit)

text \<open>When the callee value is not a String naming a registered function, the loop
  \<^verbatim>\<open>while (match(TOKEN_LPAREN))\<close> of \<^verbatim>\<open>call\<close> has an empty round: it consumes the \<^verbatim>\<open>(\<close> and
  nothing else. So, unless another \<^verbatim>\<open>(\<close> or a \<^verbatim>\<open>[\<close> follows, \<^verbatim>\<open>call\<close> returns with the
  cursor on the first token of the argument list.\<close>

lemma call_open_paren_only:
  assumes callee: "primary (eval (Suc n)) s = Ok (val, s1)"
    and not_callable: "\<not> (type_of val = T_STRING \<and> funcs s1 (str val) \<noteq> None)"
    and lparen: "current s1 < length (tokens s1)" "tok_type (tokens s1 ! current s1) = TOKEN_LPAREN"
    and after: "current s1 + 1 < length (tokens s1)"
      "tok_type (tokens s1 ! (current s1 + 1)) \<notin> {TOKEN_LPAREN, TOKEN_LBRACKET}"
    and fuel: "0 < n"
  shows "call (eval (Suc (Suc n))) s = Ok (val, s1\<lparr>current := current s1 + 1\<rparr>)"
proof -
  from fuel obtain m where n: "n = Suc m"
    using gr0_implies_Suc by blast
  let ?s2 = "s1\<lparr>current := current s1 + 1\<rparr>"
  have "call_loop (eval (Suc n)) val s1 = call_loop (eval n) val ?s2"
    using lparen not_callable by (rule call_loop_not_callable)
  also have "\<dots> = Ok (val, ?s2)"
    unfolding n using after by (intro call_loop_stop) auto
  finally have loop: "call_loop (eval (Suc n)) val s1 = Ok (val, ?s2)" .
  have "match TOKEN_LBRACKET ?s2 = Ok (False, ?s2)"
    using after by (intro match_miss) auto
  with callee loop show ?thesis
    by (simp add: eval_Suc call_body_def)
qed

text \<open>The main loop \<^verbatim>\<open>while (!isAtEnd()) statement()\<close> of \<^verbatim>\<open>execute\<close> on a statement that
  leaves the state as it is: no amount of fuel gives a result. With more or less fuel a
  statement that has a result has the same one, or none.\<close>

lemma statement_fuel:
  assumes "statement (eval k) s = Ok r"
  shows "statement (eval n) s = OutOfFuel \<or> statement (eval n) s = Ok r"
proof (cases "n \<le> k")
  case True
  then have "lr (statement (eval n) s) (statement (eval k) s)"
    by (intro le_evD le_ev_le)
  with assms show ?thesis by (auto simp: lr_def)
next
  case False
  then have "lr (statement (eval k) s) (statement (eval n) s)"
    by (intro le_evD le_ev_le) simp
  with assms show ?thesis by (auto simp: lr_def)
qed

lemma execute_next:
  assumes stmt: "statement (eval k) s = Ok ((), s')"
    and not_end: "current s < length (tokens s)" "tok_type (tokens s ! current s) \<noteq> TOKEN_EOF"
    and rest: "execute (eval n) s' = OutOfFuel"
  shows "execute (eval (Suc n)) s = OutOfFuel"
proof -
  have "isAtEnd s = Ok (False, s)"
    using not_end by (simp add: isAtEnd_def peek_def)
  moreover have "statement (eval n) s = OutOfFuel \<or> statement (eval n) s = Ok ((), s')"
    using stmt by (rule statement_fuel)
  ultimately show ?thesis
    using rest by (auto simp: eval_Suc execute_body_def)
qed

lemma execute_stuck:
  assumes stmt: "statement (eval k) s = Ok ((), s)"
    and not_end: "current s < length (tokens s)" "tok_type (tokens s ! current s) \<noteq> TOKEN_EOF"
  shows "execute (eval n) s = OutOfFuel"
proof (induction n)
  case 0
  show ?case by (simp add: eval_0)
next
  case (Suc n)
  with stmt not_end show ?case by (rule execute_next)
qed

lemma execute_diverges_next:
  assumes stmt: "statement (eval k) s = Ok ((), s')"
    and not_end: "current s < length (tokens s)" "tok_type (tokens s ! current s) \<noteq> TOKEN_EOF"
    and rest: "\<And>n. execute (eval n) s' = OutOfFuel"
  shows "execute (eval n) s = OutOfFuel"
proof (cases n)
  case 0
  then show ?thesis by (simp add: eval_0)
next
  case (Suc m)
  from stmt not_end rest [of m] show ?thesis
    unfolding Suc by (rule execute_next)
qed

lemma not_callable_program_tokens:
  "tokenize not_callable_program =
     [mkToken TOKEN_NUMBER ''5'' 1, mkToken TOKEN_LPAREN ''('' 1, mkToken TOKEN_NUMBER ''1'' 1,
      mkToken TOKEN_RPAREN '')'' 1, mkToken TOKEN_EOF [] 1]"
  unfolding not_callable_program_def by code_simp

text \<open>Claim C3 says that a call on a value that is not callable still consumes the
  argument list through the matching \<^verbatim>\<open>)\<close>, makes no call and yields the callee value. In
  the program \<^verbatim>\<open>5(1)\<close> the \<^verbatim>\<open>)\<close> is token 3, so the expression should yield 5 with the
  cursor at 4, on the end of the input, and the program should end. The branch of \<^verbatim>\<open>call\<close>
  for a registered function does consume the arguments and the \<^verbatim>\<open>)\<close>; for any other callee
  nothing follows the \<^verbatim>\<open>match\<close> of the \<^verbatim>\<open>(\<close>. So \<^verbatim>\<open>call\<close> yields 5 and leaves the cursor at 2;
  the next statement evaluates the argument \<^verbatim>\<open>1\<close>; the statement after that stands on the
  \<^verbatim>\<open>)\<close>, which \<^verbatim>\<open>primary\<close> answers with Nil without consuming it, so \<^verbatim>\<open>statement\<close> returns
  with the cursor where it was and the loop of \<^verbatim>\<open>execute\<close> never ends: no amount of fuel
  gives the run a result.\<close>

theorem not_callable_program_run:
  "tok_type (tokenize not_callable_program ! 3) = TOKEN_RPAREN
   \<and> call (eval 10) (Interpreter_init (tokenize not_callable_program)) =
       Ok (NUMBER 5, (Interpreter_init (tokenize not_callable_program))\<lparr>current := 2\<rparr>)
   \<and> (\<forall>n. run n not_callable_program = OutOfFuel)"
proof -
  let ?s = "Interpreter_init (tokenize not_callable_program)"
  have call: "call (eval 10) ?s = Ok (NUMBER 5, ?s\<lparr>current := 2\<rparr>)"
    by (simp add: not_callable_program_tokens exec_simps)
  have s1: "statement (eval 12) ?s = Ok ((), ?s\<lparr>current := 2\<rparr>)"
    by (simp add: not_callable_program_tokens exec_simps)
  have s2: "statement (eval 12) (?s\<lparr>current := 2\<rparr>) = Ok ((), ?s\<lparr>current := 3\<rparr>)"
    by (simp add: not_callable_program_tokens exec_simps)
  have s3: "statement (eval 12) (?s\<lparr>current := 3\<rparr>) = Ok ((), ?s\<lparr>current := 3\<rparr>)"
    by (simp add: not_callable_program_tokens exec_simps)
  have "execute (eval n) (?s\<lparr>current := 3\<rparr>) = OutOfFuel" for n
    by (rule execute_stuck [OF s3])
      (simp_all add: not_callable_program_tokens Interpreter_init_def mkToken_def)
  then have "execute (eval n) (?s\<lparr>current := 2\<rparr>) = OutOfFuel" for n
    by (rule execute_diverges_next [OF s2, rotated 2])
      (simp_all add: not_callable_program_tokens Interpreter_init_def mkToken_def)
  then have "execute (eval n) ?s = OutOfFuel" for n
    by (rule execute_diverges_next [OF s1, rotated 2])
      (simp_all add: not_callable_program_tokens Interpreter_init_def mkToken_def)
  with call show ?thesis
    by (simp add: run_def not_callable_program_tokens mkToken_def)
qed

section \<open>The condition of a while loop\<close>

text \<open>Claim C4: a \<^verbatim>\<open>while\<close> loop enters its body only when the condition is the Bool true.
  When the condition evaluates to any other value (a Number or a String, also one the
  \<^verbatim>\<open>if\<close> statement takes for true, an Array, Nil, or the Bool false), \<^verbatim>\<open>whileStatement\<close>
  ends in the state in which the condition and the \<^verbatim>\<open>match\<close> of the brace left the
  interpreter, with nothing changed but the cursor, which stands just past the end of the
  body: no statement of the body has run, whatever the body is.\<close>

theorem while_body_only_on_true:
  assumes cond: "expression (eval n) s = Ok (condition, s1)"
    and not_true: "\<not> (type_of condition = T_BOOL \<and> boolean condition)"
    and brace: "match TOKEN_LBRACE s1 = Ok (b, s2)"
  shows "whileStatement (eval (Suc n)) s =
    Ok ((), s2\<lparr>current := scanBlock (tokens s2) 1 (current s2) + 1\<rparr>)"
proof -
  from cond obtain m where n: "n = Suc m"
    using eval_Ok_fuel(5) gr0_implies_Suc by blast
  have loop: "while_loop (eval n) cs bs be condition s2 = Ok ((), s2)" for cs bs be
    unfolding n using not_true by (auto simp: eval_Suc while_loop_body_def)
  show ?thesis
    using cond brace by (simp add: eval_Suc whileStatement_body_def Let_def loop)
qed

text \<open>The witness is \<^verbatim>\<open>while 1 { puts 1 }\<close>: the \<^verbatim>\<open>if\<close> statement takes the Number 1 for true,
  the \<^verbatim>\<open>while\<close> statement prints nothing and moves the cursor past the body.\<close>

theorem while_body_only_on_true_witness:
  "shouldExecute (NUMBER 1)
   \<and> whileStatement (eval 12) ((Interpreter_init (tokenize ''while 1 { puts 1 }''))\<lparr>current := 1\<rparr>) =
       Ok ((), (Interpreter_init (tokenize ''while 1 { puts 1 }''))\<lparr>current := 6\<rparr>)"
proof -
  have toks: "tokenize ''while 1 { puts 1 }'' =
      [mkToken TOKEN_WHILE ''while'' 1, mkToken TOKEN_NUMBER ''1'' 1, mkToken TOKEN_LBRACE ''{'' 1,
       mkToken TOKEN_PUTS ''puts'' 1, mkToken TOKEN_NUMBER ''1'' 1, mkToken TOKEN_RBRACE ''}'' 1,
       mkToken TOKEN_EOF [] 1]"
    by code_simp
  let ?s = "Interpreter_init (tokenize ''while 1 { puts 1 }'')"
  have cond: "expression (eval 11) (?s\<lparr>current := 1\<rparr>) = Ok (NUMBER 1, ?s\<lparr>current := 2\<rparr>)"
    by (simp add: toks exec_simps)
  have brace: "match TOKEN_LBRACE (?s\<lparr>current := 2\<rparr>) = Ok (True, ?s\<lparr>current := 3\<rparr>)"
    by (simp add: toks exec_simps)
  have "whileStatement (eval (Suc 11)) (?s\<lparr>current := 1\<rparr>) =
      Ok ((), ?s\<lparr>current := 3\<rparr>\<lparr>current := scanBlock (tokens (?s\<lparr>current := 3\<rparr>)) 1 (current (?s\<lparr>current := 3\<rparr>)) + 1\<rparr>)"
    by (rule while_body_only_on_true [OF cond _ brace]) simp
  then show ?thesis by (simp add: toks exec_simps)
qed

section \<open>Assignment\<close>

lemma setVariable_search_hit:
  "i < k \<Longrightarrow> (scs ! i) name \<noteq> None \<Longrightarrow> (\<forall>j. i < j \<and> j < k \<longrightarrow> (scs ! j) name = None) \<Longrightarrow>
   setVariable_search k name val scs = Some (scs[i := (scs ! i)(name \<mapsto> val)])"
proof (induction k)
  case 0
  then show ?case by simp
next
  case (Suc k)
  show ?case
  proof (cases "i = k")
    case True
    from Suc.prems(2) have "(scs ! k) name \<noteq> None" unfolding True .
    then show ?thesis unfolding True by (simp only: setVariable_search.simps if_True not_False_eq_True)
  next
    case False
    with Suc.prems have "i < k" and "(scs ! k) name = None" by auto
    with Suc show ?thesis by simp
  qed
qed

lemma setVariable_search_miss:
  "(\<forall>j < k. (scs ! j) name = None) \<Longrightarrow> setVariable_search k name val scs = None"
  by (induction k) simp_all

lemma setVariable_mutates:
  assumes "i < length (scopes s)" and "(scopes s ! i) name \<noteq> None"
    and "\<forall>j. i < j \<and> j < length (scopes s) \<longrightarrow> (scopes s ! j) name = None"
  shows "setVariable name val s = Ok ((), s\<lparr>scopes := (scopes s)[i := (scopes s ! i)(name \<mapsto> val)]\<rparr>)"
  using setVariable_search_hit [OF assms, of val] by (simp add: setVariable_def)

lemma setVariable_declares:
  assumes "scopes s \<noteq> []" and "\<forall>fr \<in> set (scopes s). fr name = None"
  shows "setVariable name val s =
    Ok ((), s\<lparr>scopes := butlast (scopes s) @ [(last (scopes s))(name \<mapsto> val)]\<rparr>)"
proof -
  have "setVariable_search (length (scopes s)) name val (scopes s) = None"
    using assms(2) by (intro setVariable_search_miss) simp
  moreover have "(scopes s)[length (scopes s) - 1 := (last (scopes s))(name \<mapsto> val)] =
      butlast (scopes s) @ [(last (scopes s))(name \<mapsto> val)]"
    using assms(1) by (cases "scopes s" rule: rev_cases) (simp_all add: list_update_append)
  ultimately show ?thesis
    using assms(1) by (simp add: setVariable_def)
qed

lemma callFunction_undeclared:
  assumes "callFunction (eval n) f args s = Ok (v, s')" and "\<forall>fr \<in> set (scopes s). fr name = None"
  shows "(\<forall>fr \<in> set (scopes s'). fr name = None) \<and> length (scopes s') = length (scopes s)"
proof -
  from assms(1) obtain m where n: "n = Suc m"
    by (cases n) (simp_all add: eval_0)
  from assms(1) have "callFunction_body (eval m) f args s = Ok (v, s')"
    by (simp add: n eval_Suc)
  from callFunction_frames [OF good_eval this] have doms: "map dom (scopes s') = map dom (scopes s)"
    by simp
  then have len: "length (scopes s') = length (scopes s)"
    by (metis length_map)
  have "fr name = None" if "fr \<in> set (scopes s')" for fr
  proof -
    from that obtain i where i: "i < length (scopes s')" "fr = scopes s' ! i"
      by (auto simp: in_set_conv_nth)
    from doms i(1) have "dom (scopes s' ! i) = dom (scopes s ! i)"
      by (metis len nth_map)
    moreover have "(scopes s ! i) name = None"
      using assms(2) i(1) len by simp
    ultimately show ?thesis
      unfolding i(2) by (metis domIff)
  qed
  with len show ?thesis by simp
qed

text \<open>Claim C5: \<^verbatim>\<open>setVariable\<close> (the \<open>write\<close> of the specification) mutates the innermost
  frame that binds the name and leaves every other frame as it is; when no frame binds the
  name it creates the binding in the innermost frame and leaves the outer frames as they
  are. Consequently a name that no frame binds when a function is called is bound in no
  frame of the caller when the call has returned (and the stack has its height again),
  whatever the body has assigned: an assignment to such a name in the body is local.\<close>

theorem assignment_innermost_or_local:
  "(i < length (scopes s) \<and> (scopes s ! i) name \<noteq> None
      \<and> (\<forall>j. i < j \<and> j < length (scopes s) \<longrightarrow> (scopes s ! j) name = None)
    \<longrightarrow> setVariable name val s = Ok ((), s\<lparr>scopes := (scopes s)[i := (scopes s ! i)(name \<mapsto> val)]\<rparr>))
   \<and> (scopes s \<noteq> [] \<and> (\<forall>fr \<in> set (scopes s). fr name = None)
    \<longrightarrow> setVariable name val s =
          Ok ((), s\<lparr>scopes := butlast (scopes s) @ [(last (scopes s))(name \<mapsto> val)]\<rparr>))
   \<and> (callFunction (eval n) f args s = Ok (v, s') \<and> (\<forall>fr \<in> set (scopes s). fr name = None)
    \<longrightarrow> (\<forall>fr \<in> set (scopes s'). fr name = None) \<and> length (scopes s') = length (scopes s))"
  using setVariable_mutates [of i s name val] setVariable_declares [of s name val]
    callFunction_undeclared [of n f args s v s' name]
  by blast

lemma local_program_tokens:
  "tokenize local_program = map (\<lambda>(ty, v). mkToken ty v 1)
     [(TOKEN_FN, ''fn''), (TOKEN_IDENTIFIER, ''f''), (TOKEN_LPAREN, ''(''), (TOKEN_RPAREN, '')''),
      (TOKEN_LBRACE, ''{''), (TOKEN_IDENTIFIER, ''y''), (TOKEN_EQUAL, ''=''), (TOKEN_NUMBER, ''5''),
      (TOKEN_SEMICOLON, '';''), (TOKEN_RBRACE, ''}''), (TOKEN_IDENTIFIER, ''f''),
      (TOKEN_LPAREN, ''(''), (TOKEN_RPAREN, '')''), (TOKEN_EOF, [])]"
  unfolding local_program_def by code_simp

lemma local_program_declared:
  "statement (eval 3) (Interpreter_init (tokenize local_program)) = Ok ((), after_declaration local_program)"
  by (simp add: after_declaration_def local_program_tokens exec_simps)

text \<open>The witness: with \<^verbatim>\<open>x\<close> bound in the two outer frames of three, an assignment to \<^verbatim>\<open>x\<close>
  changes the middle frame; an assignment to the unbound \<^verbatim>\<open>y\<close> binds it in the innermost
  frame; and after \<^verbatim>\<open>fn f() { y = 5; } f()\<close> the call has left \<^verbatim>\<open>y\<close> unbound in the caller.\<close>

theorem assignment_innermost_or_local_witness:
  "setVariable ''x'' (NUMBER 9)
      ((Interpreter_init [])\<lparr>scopes := [[''x'' \<mapsto> NUMBER 1], [''x'' \<mapsto> NUMBER 2], Map.empty]\<rparr>) =
     Ok ((), (Interpreter_init [])\<lparr>scopes := [[''x'' \<mapsto> NUMBER 1], [''x'' \<mapsto> NUMBER 9], Map.empty]\<rparr>)
   \<and> setVariable ''y'' (NUMBER 9)
      ((Interpreter_init [])\<lparr>scopes := [[''x'' \<mapsto> NUMBER 1], Map.empty]\<rparr>) =
     Ok ((), (Interpreter_init [])\<lparr>scopes := [[''x'' \<mapsto> NUMBER 1], [''y'' \<mapsto> NUMBER 9]]\<rparr>)
   \<and> callFunction (eval 30) ''f'' [] (after_declaration local_program) =
     Ok (NIL, after_declaration local_program)
   \<and> map (\<lambda>fr. fr ''y'') (scopes (after_declaration local_program)) = [None]"
proof -
  let ?s3 = "(Interpreter_init [])\<lparr>scopes := [[''x'' \<mapsto> NUMBER 1], [''x'' \<mapsto> NUMBER 2], Map.empty]\<rparr>"
  let ?s2 = "(Interpreter_init [])\<lparr>scopes := [[''x'' \<mapsto> NUMBER 1], Map.empty]\<rparr>"
  let ?sA = "after_declaration local_program"
  have inner: "\<forall>j. 1 < j \<and> j < length (scopes ?s3) \<longrightarrow> (scopes ?s3 ! j) ''x'' = None"
  proof (intro allI impI)
    fix j :: nat
    assume "1 < j \<and> j < length (scopes ?s3)"
    then have "j = 2" by (simp add: Interpreter_init_def)
    then show "(scopes ?s3 ! j) ''x'' = None" by (simp add: Interpreter_init_def)
  qed
  have "setVariable ''x'' (NUMBER 9) ?s3 =
      Ok ((), ?s3\<lparr>scopes := (scopes ?s3)[1 := (scopes ?s3 ! 1)(''x'' \<mapsto> NUMBER 9)]\<rparr>)"
    using assignment_innermost_or_local [of 1 ?s3 "''x''" "NUMBER 9"] inner
    by (simp add: Interpreter_init_def)
  then have one: "setVariable ''x'' (NUMBER 9) ?s3 =
      Ok ((), (Interpreter_init [])\<lparr>scopes := [[''x'' \<mapsto> NUMBER 1], [''x'' \<mapsto> NUMBER 9], Map.empty]\<rparr>)"
    by (simp add: Interpreter_init_def)
  have "setVariable ''y'' (NUMBER 9) ?s2 =
      Ok ((), ?s2\<lparr>scopes := butlast (scopes ?s2) @ [(last (scopes ?s2))(''y'' \<mapsto> NUMBER 9)]\<rparr>)"
    using assignment_innermost_or_local [of _ ?s2 "''y''" "NUMBER 9"]
    by (simp add: Interpreter_init_def)
  then have two: "setVariable ''y'' (NUMBER 9) ?s2 =
      Ok ((), (Interpreter_init [])\<lparr>scopes := [[''x'' \<mapsto> NUMBER 1], [''y'' \<mapsto> NUMBER 9]]\<rparr>)"
    by (simp add: Interpreter_init_def)
  have call: "callFunction (eval 30) ''f'' [] ?sA = Ok (NIL, ?sA)"
    by (simp add: after_declaration_def local_program_tokens exec_simps)
  have unbound: "\<forall>fr \<in> set (scopes ?sA). fr ''y'' = None"
    by (simp add: after_declaration_def Interpreter_init_def)
  from assignment_innermost_or_local [of _ ?sA "''y''" _ 30 "''f''" "[]" NIL ?sA] call unbound
  have "\<forall>fr \<in> set (scopes ?sA). fr ''y'' = None" by blast
  then have three: "map (\<lambda>fr. fr ''y'') (scopes ?sA) = [None]"
    by (simp add: after_declaration_def Interpreter_init_def)
  from one two call three show ?thesis by blast
qed

section \<open>Division and modulo by zero\<close>

lemma factor_loop_stop:
  assumes "current s < length (tokens s)"
    and "tok_type (tokens s ! current s) \<notin> {TOKEN_STAR, TOKEN_SLASH, TOKEN_PERCENT}"
  shows "factor_loop (eval (Suc n)) left s = Ok (left, s)"
  using assms by (simp add: eval_Suc factor_loop_body_def match_miss)

lemma factor_loop_round:
  assumes "current s < length (tokens s)"
    and "tok_type (tokens s ! current s) \<in> {TOKEN_STAR, TOKEN_SLASH, TOKEN_PERCENT}"
    and "unary (eval n) (s\<lparr>current := current s + 1\<rparr>) = Ok (right, s')"
  shows "factor_loop (eval (Suc n)) left s =
    factor_loop (eval n) (factor_apply (tok_type (tokens s ! current s)) left right) s'"
proof -
  consider "tok_type (tokens s ! current s) = TOKEN_STAR"
    | "tok_type (tokens s ! current s) = TOKEN_SLASH"
    | "tok_type (tokens s ! current s) = TOKEN_PERCENT"
    using assms(2) by auto
  then show ?thesis
  proof cases
    case 1
    with assms(1,3) show ?thesis
      by (simp add: eval_Suc factor_loop_body_def match_hit previous_ok)
  next
    case 2
    with assms(1,3) show ?thesis
      by (simp add: eval_Suc factor_loop_body_def match_hit match_miss previous_ok)
  next
    case 3
    with assms(1,3) show ?thesis
      by (simp add: eval_Suc factor_loop_body_def match_hit match_miss previous_ok)
  qed
qed

text \<open>Claim C7: for every Number \<open>a\<close>, \<open>a / 0\<close> and \<open>a % 0\<close> evaluate to \<open>a\<close>. In
  \<^verbatim>\<open>factor\<close>, when the left operand evaluates to the Number \<open>a\<close>, the next token is \<^verbatim>\<open>/\<close> or
  \<^verbatim>\<open>%\<close>, the right operand evaluates to the Number 0 and no further multiplicative
  operator follows, the result is the Number \<open>a\<close>, in the state the right operand left:
  no error, no fault, and no other value.\<close>

theorem division_by_zero_keeps_left:
  assumes left: "unary (eval (Suc n)) s = Ok (NUMBER a, s1)"
    and op: "current s1 < length (tokens s1)"
      "tok_type (tokens s1 ! current s1) = TOKEN_SLASH \<or> tok_type (tokens s1 ! current s1) = TOKEN_PERCENT"
    and right: "unary (eval n) (s1\<lparr>current := current s1 + 1\<rparr>) = Ok (NUMBER 0, s2)"
    and stop: "current s2 < length (tokens s2)"
      "tok_type (tokens s2 ! current s2) \<notin> {TOKEN_STAR, TOKEN_SLASH, TOKEN_PERCENT}"
  shows "factor (eval (Suc (Suc n))) s = Ok (NUMBER a, s2)"
proof -
  from right obtain m where n: "n = Suc m"
    using eval_Ok_fuel(1) gr0_implies_Suc by blast
  have keep: "factor_apply (tok_type (tokens s1 ! current s1)) (NUMBER a) (NUMBER 0) = NUMBER a"
    using op(2) by (auto simp: factor_apply_def)
  have "factor (eval (Suc (Suc n))) s = factor_loop (eval (Suc n)) (NUMBER a) s1"
    using left by (simp add: eval_Suc factor_body_def)
  also have "\<dots> = factor_loop (eval n) (NUMBER a) s2"
    using factor_loop_round [OF op(1) _ right, of "NUMBER a"] op(2) keep by auto
  also have "\<dots> = Ok (NUMBER a, s2)"
    unfolding n using stop by (rule factor_loop_stop)
  finally show ?thesis .
qed


text \<open>The witness is the text \<^verbatim>\<open>10 / 0\<close> of the specification: it evaluates to 10.\<close>

theorem division_by_zero_keeps_left_witness:
  "factor (eval 12) (Interpreter_init (tokenize ''10 / 0'')) =
     Ok (NUMBER 10, (Interpreter_init (tokenize ''10 / 0''))\<lparr>current := 3\<rparr>)"
proof -
  have toks: "tokenize ''10 / 0'' =
      [mkToken TOKEN_NUMBER ''10'' 1, mkToken TOKEN_SLASH ''/'' 1, mkToken TOKEN_NUMBER ''0'' 1,
       mkToken TOKEN_EOF [] 1]"
    by code_simp
  let ?s = "Interpreter_init (tokenize ''10 / 0'')"
  have left: "unary (eval (Suc 10)) ?s = Ok (NUMBER 10, ?s\<lparr>current := 1\<rparr>)"
    by (simp add: toks exec_simps)
  have right: "unary (eval 10) (?s\<lparr>current := 1\<rparr>\<lparr>current := current (?s\<lparr>current := 1\<rparr>) + 1\<rparr>)
      = Ok (NUMBER 0, ?s\<lparr>current := 3\<rparr>)"
    by (simp add: toks exec_simps)
  have "factor (eval (Suc (Suc 10))) ?s = Ok (NUMBER 10, ?s\<lparr>current := 3\<rparr>)"
    by (rule division_by_zero_keeps_left [OF left _ _ right]) (simp_all add: toks exec_simps)
  then show ?thesis by simp
qed

section \<open>Comparisons across variants\<close>

lemma comparison_loop_stop:
  assumes "current s < length (tokens s)"
    and "tok_type (tokens s ! current s) \<notin> {TOKEN_EQUAL_EQUAL, TOKEN_BANG_EQUAL, TOKEN_LESS,
           TOKEN_GREATER, TOKEN_LESS_EQUAL, TOKEN_GREATER_EQUAL}"
  shows "comparison_loop (eval (Suc n)) left s = Ok (left, s)"
  using assms by (simp add: eval_Suc comparison_loop_body_def peek_ok)

lemma comparison_loop_round:
  assumes "current s < length (tokens s)"
    and "tok_type (tokens s ! current s) \<in> {TOKEN_EQUAL_EQUAL, TOKEN_BANG_EQUAL, TOKEN_LESS,
           TOKEN_GREATER, TOKEN_LESS_EQUAL, TOKEN_GREATER_EQUAL}"
    and "term_expr (eval n) (s\<lparr>current := current s + 1\<rparr>) = Ok (right, s')"
  shows "comparison_loop (eval (Suc n)) left s =
    comparison_loop (eval n) (BOOL (compare_values (tok_type (tokens s ! current s)) left right)) s'"
  using assms by (auto simp: eval_Suc comparison_loop_body_def peek_ok advance_ok)

lemma compare_values_across: "type_of left \<noteq> type_of right \<Longrightarrow> \<not> compare_values op left right"
  by (auto simp: compare_values_def)

text \<open>Claim C8: a comparison between two values of different variants is false, for each
  of the six operators. In \<^verbatim>\<open>comparison\<close>, when the left operand evaluates to \<open>left\<close>, the
  next token is one of \<^verbatim>\<open>==\<close>, \<^verbatim>\<open>!=\<close>, \<^verbatim>\<open><\<close>, \<^verbatim>\<open>>\<close>, \<^verbatim>\<open><=\<close>, \<^verbatim>\<open>>=\<close>, the right operand
  evaluates to a value \<open>right\<close> of another variant and no further comparison operator
  follows, the result is the Bool false (a result, not a failure).\<close>

theorem comparison_across_variants:
  assumes left: "term_expr (eval (Suc n)) s = Ok (left, s1)"
    and op: "current s1 < length (tokens s1)"
      "tok_type (tokens s1 ! current s1) \<in> {TOKEN_EQUAL_EQUAL, TOKEN_BANG_EQUAL, TOKEN_LESS,
         TOKEN_GREATER, TOKEN_LESS_EQUAL, TOKEN_GREATER_EQUAL}"
    and right: "term_expr (eval n) (s1\<lparr>current := current s1 + 1\<rparr>) = Ok (right, s2)"
    and variants: "type_of left \<noteq> type_of right"
    and stop: "current s2 < length (tokens s2)"
      "tok_type (tokens s2 ! current s2) \<notin> {TOKEN_EQUAL_EQUAL, TOKEN_BANG_EQUAL, TOKEN_LESS,
         TOKEN_GREATER, TOKEN_LESS_EQUAL, TOKEN_GREATER_EQUAL}"
  shows "comparison (eval (Suc (Suc n))) s = Ok (BOOL False, s2)"
proof -
  from right obtain m where n: "n = Suc m"
    using eval_Ok_fuel(2) gr0_implies_Suc by blast
  have "comparison (eval (Suc (Suc n))) s = comparison_loop (eval (Suc n)) left s1"
    using left by (simp add: eval_Suc comparison_body_def)
  also have "\<dots> = comparison_loop (eval n) (BOOL False) s2"
    using comparison_loop_round [OF op right, of left] compare_values_across [OF variants] by simp
  also have "\<dots> = Ok (BOOL False, s2)"
    unfolding n using stop by (rule comparison_loop_stop)
  finally show ?thesis .
qed

text \<open>The witness is the text \<^verbatim>\<open>true != 1\<close>: a Bool against a Number, false although the
  two differ.\<close>

theorem comparison_across_variants_witness:
  "comparison (eval 12) (Interpreter_init (tokenize ''true != 1'')) =
     Ok (BOOL False, (Interpreter_init (tokenize ''true != 1''))\<lparr>current := 3\<rparr>)"
proof -
  have toks: "tokenize ''true != 1'' =
      [mkToken TOKEN_TRUE ''true'' 1, mkToken TOKEN_BANG_EQUAL ''!='' 1, mkToken TOKEN_NUMBER ''1'' 1,
       mkToken TOKEN_EOF [] 1]"
    by code_simp
  let ?s = "Interpreter_init (tokenize ''true != 1'')"
  have left: "term_expr (eval (Suc 10)) ?s = Ok (BOOL True, ?s\<lparr>current := 1\<rparr>)"
    by (simp add: toks exec_simps)
  have right: "term_expr (eval 10) (?s\<lparr>current := 1\<rparr>\<lparr>current := current (?s\<lparr>current := 1\<rparr>) + 1\<rparr>)
      = Ok (NUMBER 1, ?s\<lparr>current := 3\<rparr>)"
    by (simp add: toks exec_simps)
  have "comparison (eval (Suc (Suc 10))) ?s = Ok (BOOL False, ?s\<lparr>current := 3\<rparr>)"
    by (rule comparison_across_variants [OF left _ _ right]) (simp_all add: toks exec_simps)
  then show ?thesis by simp
qed

section \<open>The for statement\<close>

lemma for_iteration_mono:
  assumes le: "le_ev ev ev'"
  shows "lr (for_iteration ev name bs be i s) (for_iteration ev' name bs be i s)"
  unfolding for_iteration_def
  by (intro lr_intros le_evD [OF le])

lemma for_each_mono:
  assumes le: "le_ev ev ev'"
  shows "lr (for_each (for_iteration ev name bs be) is s) (for_each (for_iteration ev' name bs be) is s)"
proof (induction "is" arbitrary: s)
  case Nil
  show ?case by (simp add: lr_refl)
next
  case (Cons i rest)
  show ?case
    unfolding for_each.simps
    by (intro lr_if lr_bnd lr_refl for_iteration_mono [OF le] Cons.IH)
qed

lemma for_loop_imp_each:
  "for_loop (eval n) name bs be i iEnd s = Ok ((), s') \<Longrightarrow>
   for_each (for_iteration (eval n) name bs be) [i..iEnd - 1] s = Ok ((), s')"
proof (induction n arbitrary: i s)
  case 0
  then show ?case by (simp add: eval_0)
next
  case (Suc m)
  from Suc.prems have body: "for_loop_body (eval m) name bs be i iEnd s = Ok ((), s')"
    by (simp add: eval_Suc)
  show ?case
  proof (cases "i < iEnd")
    case False
    with body show ?thesis by (simp add: for_loop_body_def)
  next
    case True
    then have range: "[i..iEnd - 1] = i # [i + 1..iEnd - 1]"
      by (simp add: upto_rec1)
    show ?thesis
    proof (cases "hasReturned s")
      case True
      with body \<open>i < iEnd\<close> show ?thesis by (simp add: for_loop_body_def range)
    next
      case False
      with body \<open>i < iEnd\<close> obtain s1 s2 where
        sv: "setVariable name (NUMBER (of_int i)) s = Ok ((), s1)"
        and fb: "for_body (eval m) be (s1\<lparr>current := bs\<rparr>) = Ok ((), s2)"
        and rest: "for_loop (eval m) name bs be (i + 1) iEnd (s2\<lparr>current := current s1\<rparr>) = Ok ((), s')"
        by (auto simp: for_loop_body_def Let_def bnd_eq_Ok_iff)
      have le: "le_ev (eval m) (eval (Suc m))"
        using le_ev_add [of m 1] by simp
      from lr_Ok [OF le_evD(11) [OF le] fb]
      have fb': "for_body (eval (Suc m)) be (s1\<lparr>current := bs\<rparr>) = Ok ((), s2)" .
      from Suc.IH [OF rest]
      have "for_each (for_iteration (eval m) name bs be) [i + 1..iEnd - 1] (s2\<lparr>current := current s1\<rparr>)
          = Ok ((), s')" .
      from lr_Ok [OF for_each_mono [OF le] this]
      have "for_each (for_iteration (eval (Suc m)) name bs be) [i + 1..iEnd - 1]
          (s2\<lparr>current := current s1\<rparr>) = Ok ((), s')" .
      moreover have "for_iteration (eval (Suc m)) name bs be i s = Ok ((), s2\<lparr>current := current s1\<rparr>)"
        unfolding for_iteration_def using sv fb' by simp
      ultimately show ?thesis
        using False by (simp add: range)
    qed
  qed
qed

lemma for_each_imp_loop:
  "for_each (for_iteration (eval n) name bs be) [i..iEnd - 1] s = Ok ((), s') \<Longrightarrow>
   for_loop (eval (Suc (n + length [i..iEnd - 1]))) name bs be i iEnd s = Ok ((), s')"
proof (induction "length [i..iEnd - 1]" arbitrary: i s)
  case 0
  then have "\<not> i < iEnd" and "[i..iEnd - 1] = []" by auto
  with "0.prems" show ?case
    by (simp add: eval_Suc for_loop_body_def)
next
  case (Suc k)
  from Suc.hyps(2) have lt: "i < iEnd" by auto
  then have range: "[i..iEnd - 1] = i # [i + 1..iEnd - 1]"
    by (simp add: upto_rec1)
  with Suc.hyps(2) have k: "k = length [i + 1..iEnd - 1]" by simp
  have fuel: "Suc (n + length [i..iEnd - 1]) = Suc (Suc (n + k))"
    using Suc.hyps(2) by simp
  show ?case
  proof (cases "hasReturned s")
    case True
    with Suc.prems lt show ?thesis
      by (simp add: range fuel eval_Suc for_loop_body_def del: length_upto)
  next
    case False
    with Suc.prems obtain t where
      it: "for_iteration (eval n) name bs be i s = Ok ((), t)"
      and rest': "for_each (for_iteration (eval n) name bs be) [i + 1..iEnd - 1] t = Ok ((), s')"
      by (auto simp: range bnd_eq_Ok_iff)
    from it obtain s1 s2 where
      sv: "setVariable name (NUMBER (of_int i)) s = Ok ((), s1)"
      and fb: "for_body (eval n) be (s1\<lparr>current := bs\<rparr>) = Ok ((), s2)"
      and t: "t = s2\<lparr>current := current s1\<rparr>"
      unfolding for_iteration_def by (auto simp: bnd_eq_Ok_iff)
    from rest' have rest: "for_each (for_iteration (eval n) name bs be) [i + 1..iEnd - 1]
          (s2\<lparr>current := current s1\<rparr>) = Ok ((), s')"
      unfolding t .
    have le: "le_ev (eval n) (eval (Suc (n + k)))"
      using le_ev_add [of n "Suc k"] by simp
    from lr_Ok [OF le_evD(11) [OF le] fb]
    have fb': "for_body (eval (Suc (n + k))) be (s1\<lparr>current := bs\<rparr>) = Ok ((), s2)" .
    from Suc.hyps(1) [OF k rest]
    have "for_loop (eval (Suc (n + k))) name bs be (i + 1) iEnd (s2\<lparr>current := current s1\<rparr>)
        = Ok ((), s')"
      using k by simp
    with sv fb' False lt show ?thesis
      unfolding fuel by (simp add: eval_Suc [of "Suc (n + k)"] for_loop_body_def Let_def)
  qed
qed


lemma forStatement_header:
  assumes "advance s = Ok (iterVar, sa)" and "match TOKEN_IN sa = Ok (True, sb)"
    and "expression ev sb = Ok (start, sc)" and "match TOKEN_DOTDOT sc = Ok (True, sd)"
    and "expression ev sd = Ok (end', se)" and "match TOKEN_LBRACE se = Ok (True, s1)"
  shows "forStatement_body ev s =
    bnd (if type_of start = T_NUMBER \<and> type_of end' = T_NUMBER then
           (case cast_int (num start) of
              None \<Rightarrow> Fault
            | Some iStart \<Rightarrow>
                (case cast_int (num end') of
                   None \<Rightarrow> Fault
                 | Some iEnd \<Rightarrow>
                     for_loop ev (tok_value iterVar) (current s1)
                       (scanBlock (tokens s1) 1 (current s1)) iStart iEnd s1))
         else Ok ((), s1))
      (\<lambda>_ s. Ok ((), s\<lparr>current := scanBlock (tokens s1) 1 (current s1) + 1\<rparr>))"
  using assms by (simp add: forStatement_body_def Let_def)

text \<open>Claim C9: a statement \<^verbatim>\<open>for name in start..end { body }\<close>, entered behind the keyword
  \<^verbatim>\<open>for\<close> with a well-formed header whose bounds evaluate to \<open>start\<close> and \<open>end'\<close>, and with
  \<open>s1\<close> the state at the first token of the body.
  \<^item> If a bound is not a Number, the state \<open>s1\<close> changes in the cursor only: the body runs
    zero times and the cursor ends just past the closing brace.
  \<^item> If both are Numbers, truncated to \<open>iStart\<close> and \<open>iEnd\<close>, the statement does what
    \<open>for_each\<close> does on the integers from \<open>iStart\<close> up to \<open>iEnd - 1\<close> in order: one iteration
    for each, which binds the name to the integer as a Number and replays the body (until a
    return is pending, as the specification says). When these iterations end in a state
    \<open>s2\<close>, the statement, given one level of fuel for each integer of the range, ends in
    \<open>s2\<close> with the cursor just past the closing brace; and whenever the statement ends, it
    ends in such a state.\<close>

theorem for_statement_iterates:
  assumes "advance s = Ok (iterVar, sa)" and "match TOKEN_IN sa = Ok (True, sb)"
    and "expression (eval n) sb = Ok (start, sc)" and "match TOKEN_DOTDOT sc = Ok (True, sd)"
    and "expression (eval n) sd = Ok (end', se)" and "match TOKEN_LBRACE se = Ok (True, s1)"
  shows
    "(type_of start \<noteq> T_NUMBER \<or> type_of end' \<noteq> T_NUMBER \<longrightarrow>
        forStatement (eval (Suc n)) s =
          Ok ((), s1\<lparr>current := scanBlock (tokens s1) 1 (current s1) + 1\<rparr>))
     \<and> (type_of start = T_NUMBER \<and> type_of end' = T_NUMBER
          \<and> cast_int (num start) = Some iStart \<and> cast_int (num end') = Some iEnd \<longrightarrow>
        (for_each (for_iteration (eval n) (tok_value iterVar) (current s1)
             (scanBlock (tokens s1) 1 (current s1))) [iStart..iEnd - 1] s1 = Ok ((), s2) \<longrightarrow>
           forStatement (eval (Suc (Suc (n + length [iStart..iEnd - 1])))) s =
             Ok ((), s2\<lparr>current := scanBlock (tokens s1) 1 (current s1) + 1\<rparr>))
        \<and> (forStatement (eval (Suc n)) s = Ok ((), s') \<longrightarrow>
             (\<exists>t. for_each (for_iteration (eval n) (tok_value iterVar) (current s1)
                    (scanBlock (tokens s1) 1 (current s1))) [iStart..iEnd - 1] s1 = Ok ((), t)
                  \<and> s' = t\<lparr>current := scanBlock (tokens s1) 1 (current s1) + 1\<rparr>)))"
proof (intro conjI impI)
  note hdr = forStatement_header [OF assms]
  show "forStatement (eval (Suc n)) s =
      Ok ((), s1\<lparr>current := scanBlock (tokens s1) 1 (current s1) + 1\<rparr>)"
    if "type_of start \<noteq> T_NUMBER \<or> type_of end' \<noteq> T_NUMBER"
    using that by (auto simp: eval_Suc hdr)
next
  let ?be = "scanBlock (tokens s1) 1 (current s1)"
  let ?N = "Suc (n + length [iStart..iEnd - 1])"
  assume numbers: "type_of start = T_NUMBER \<and> type_of end' = T_NUMBER
      \<and> cast_int (num start) = Some iStart \<and> cast_int (num end') = Some iEnd"
    and each: "for_each (for_iteration (eval n) (tok_value iterVar) (current s1) ?be)
        [iStart..iEnd - 1] s1 = Ok ((), s2)"
  have le: "le_ev (eval n) (eval ?N)"
    using le_ev_add [of n "Suc (length [iStart..iEnd - 1])"] by simp
  have e1: "expression (eval ?N) sb = Ok (start, sc)"
    by (rule lr_Ok [OF le_evD(12) [OF le] assms(3)])
  have e2: "expression (eval ?N) sd = Ok (end', se)"
    by (rule lr_Ok [OF le_evD(12) [OF le] assms(5)])
  note hdr = forStatement_header [OF assms(1,2) e1 assms(4) e2 assms(6)]
  from for_each_imp_loop [OF each]
  have "for_loop (eval ?N) (tok_value iterVar) (current s1) ?be iStart iEnd s1 = Ok ((), s2)" .
  with numbers show "forStatement (eval (Suc ?N)) s = Ok ((), s2\<lparr>current := ?be + 1\<rparr>)"
    by (simp add: eval_Suc [of ?N] hdr del: length_upto)
next
  let ?be = "scanBlock (tokens s1) 1 (current s1)"
  assume numbers: "type_of start = T_NUMBER \<and> type_of end' = T_NUMBER
      \<and> cast_int (num start) = Some iStart \<and> cast_int (num end') = Some iEnd"
    and run: "forStatement (eval (Suc n)) s = Ok ((), s')"
  note hdr = forStatement_header [OF assms]
  from run numbers obtain t where
    loop: "for_loop (eval n) (tok_value iterVar) (current s1) ?be iStart iEnd s1 = Ok ((), t)"
    and s': "s' = t\<lparr>current := ?be + 1\<rparr>"
    by (auto simp: eval_Suc hdr bnd_eq_Ok_iff)
  from for_loop_imp_each [OF loop] s'
  show "\<exists>t. for_each (for_iteration (eval n) (tok_value iterVar) (current s1) ?be)
      [iStart..iEnd - 1] s1 = Ok ((), t) \<and> s' = t\<lparr>current := ?be + 1\<rparr>"
    by blast
qed

lemma for_program_tokens:
  "tokenize for_program = map (\<lambda>(ty, v). mkToken ty v 1)
     [(TOKEN_FOR, ''for''), (TOKEN_IDENTIFIER, ''i''), (TOKEN_IN, ''in''), (TOKEN_NUMBER, ''0''),
      (TOKEN_DOTDOT, ''..''), (TOKEN_NUMBER, ''5''), (TOKEN_LBRACE, ''{''), (TOKEN_PUTS, ''puts''),
      (TOKEN_IDENTIFIER, ''i''), (TOKEN_RBRACE, ''}''), (TOKEN_EOF, [])]"
  unfolding for_program_def by code_simp

lemma for_bool_program_tokens:
  "tokenize for_bool_program = map (\<lambda>(ty, v). mkToken ty v 1)
     [(TOKEN_FOR, ''for''), (TOKEN_IDENTIFIER, ''i''), (TOKEN_IN, ''in''), (TOKEN_TRUE, ''true''),
      (TOKEN_DOTDOT, ''..''), (TOKEN_NUMBER, ''5''), (TOKEN_LBRACE, ''{''), (TOKEN_PUTS, ''puts''),
      (TOKEN_IDENTIFIER, ''i''), (TOKEN_RBRACE, ''}''), (TOKEN_EOF, [])]"
  unfolding for_bool_program_def by code_simp

text \<open>The witness: \<^verbatim>\<open>for i in 0..5 { puts i }\<close> prints 0, 1, 2, 3, 4 and leaves the cursor on
  the end of the input, behind the closing brace; with the Bool \<^verbatim>\<open>true\<close> for the start the
  body does not run.\<close>

theorem for_statement_iterates_witness:
  "forStatement (eval 21) ((Interpreter_init (tokenize for_program))\<lparr>current := 1\<rparr>) =
     Ok ((), (Interpreter_init (tokenize for_program))
        \<lparr>scopes := [[''i'' \<mapsto> NUMBER 4]], current := 10, stdout := [''0'', ''1'', ''2'', ''3'', ''4'']\<rparr>)
   \<and> forStatement (eval 15) ((Interpreter_init (tokenize for_bool_program))\<lparr>current := 1\<rparr>) =
     Ok ((), (Interpreter_init (tokenize for_bool_program))\<lparr>current := 10\<rparr>)
   \<and> output_of (run 30 for_program) = Some [''0'', ''1'', ''2'', ''3'', ''4'']"
proof -
  let ?S = "Interpreter_init (tokenize for_program)"
  let ?i = "mkToken TOKEN_IDENTIFIER ''i'' 1"
  let ?s2 = "?S\<lparr>scopes := [[''i'' \<mapsto> NUMBER 4]], current := 7, stdout := [''0'', ''1'', ''2'', ''3'', ''4'']\<rparr>"
  have h: "advance (?S\<lparr>current := 1\<rparr>) = Ok (?i, ?S\<lparr>current := 2\<rparr>)"
    "match TOKEN_IN (?S\<lparr>current := 2\<rparr>) = Ok (True, ?S\<lparr>current := 3\<rparr>)"
    "expression (eval 14) (?S\<lparr>current := 3\<rparr>) = Ok (NUMBER 0, ?S\<lparr>current := 4\<rparr>)"
    "match TOKEN_DOTDOT (?S\<lparr>current := 4\<rparr>) = Ok (True, ?S\<lparr>current := 5\<rparr>)"
    "expression (eval 14) (?S\<lparr>current := 5\<rparr>) = Ok (NUMBER 5, ?S\<lparr>current := 6\<rparr>)"
    "match TOKEN_LBRACE (?S\<lparr>current := 6\<rparr>) = Ok (True, ?S\<lparr>current := 7\<rparr>)"
    by (simp_all add: for_program_tokens exec_simps)
  have be: "scanBlock (tokens (?S\<lparr>current := 7\<rparr>)) 1 (current (?S\<lparr>current := 7\<rparr>)) = 9"
    by (simp add: for_program_tokens exec_simps)
  have each: "for_each (for_iteration (eval 14) (tok_value ?i) (current (?S\<lparr>current := 7\<rparr>))
        (scanBlock (tokens (?S\<lparr>current := 7\<rparr>)) 1 (current (?S\<lparr>current := 7\<rparr>))))
      [0..5 - 1] (?S\<lparr>current := 7\<rparr>) = Ok ((), ?s2)"
    unfolding be by (simp add: upto.simps for_iteration_def for_program_tokens exec_simps)
  from for_statement_iterates [OF h, of 0 5 ?s2] each
  have "forStatement (eval (Suc (Suc (14 + length [0..5 - 1])))) (?S\<lparr>current := 1\<rparr>) =
      Ok ((), ?s2\<lparr>current := scanBlock (tokens (?S\<lparr>current := 7\<rparr>)) 1 (current (?S\<lparr>current := 7\<rparr>)) + 1\<rparr>)"
    by (simp add: cast_int_def del: length_upto)
  then have one: "forStatement (eval 21) (?S\<lparr>current := 1\<rparr>) =
      Ok ((), ?S\<lparr>scopes := [[''i'' \<mapsto> NUMBER 4]], current := 10, stdout := [''0'', ''1'', ''2'', ''3'', ''4'']\<rparr>)"
    unfolding be by simp
  let ?T = "Interpreter_init (tokenize for_bool_program)"
  have g: "advance (?T\<lparr>current := 1\<rparr>) = Ok (?i, ?T\<lparr>current := 2\<rparr>)"
    "match TOKEN_IN (?T\<lparr>current := 2\<rparr>) = Ok (True, ?T\<lparr>current := 3\<rparr>)"
    "expression (eval 14) (?T\<lparr>current := 3\<rparr>) = Ok (BOOL True, ?T\<lparr>current := 4\<rparr>)"
    "match TOKEN_DOTDOT (?T\<lparr>current := 4\<rparr>) = Ok (True, ?T\<lparr>current := 5\<rparr>)"
    "expression (eval 14) (?T\<lparr>current := 5\<rparr>) = Ok (NUMBER 5, ?T\<lparr>current := 6\<rparr>)"
    "match TOKEN_LBRACE (?T\<lparr>current := 6\<rparr>) = Ok (True, ?T\<lparr>current := 7\<rparr>)"
    by (simp_all add: for_bool_program_tokens exec_simps)
  from for_statement_iterates [OF g]
  have "forStatement (eval (Suc 14)) (?T\<lparr>current := 1\<rparr>) =
      Ok ((), ?T\<lparr>current := 7\<rparr>\<lparr>current := scanBlock (tokens (?T\<lparr>current := 7\<rparr>)) 1 (current (?T\<lparr>current := 7\<rparr>)) + 1\<rparr>)"
    by simp
  then have two: "forStatement (eval 15) (?T\<lparr>current := 1\<rparr>) = Ok ((), ?T\<lparr>current := 10\<rparr>)"
    by (simp add: for_bool_program_tokens exec_simps)
  have three: "output_of (run 30 for_program) = Some [''0'', ''1'', ''2'', ''3'', ''4'']"
    by (simp add: run_def output_of_def for_program_tokens exec_simps)
  from one two three show ?thesis by blast
qed

section \<open>The logical operators\<close>

lemma logicalOr_loop_stop:
  assumes "current s < length (tokens s)" and "tok_type (tokens s ! current s) \<noteq> TOKEN_OR"
  shows "logicalOr_loop (eval (Suc n)) left s = Ok (left, s)"
  using assms by (simp add: eval_Suc logicalOr_loop_body_def match_miss)

lemma logicalOr_loop_round:
  assumes "current s < length (tokens s)" and "tok_type (tokens s ! current s) = TOKEN_OR"
    and "logicalAnd (eval n) (s\<lparr>current := current s + 1\<rparr>) = Ok (right, s')"
  shows "logicalOr_loop (eval (Suc n)) left s =
    logicalOr_loop (eval n) (BOOL (toBool left \<or> toBool right)) s'"
  using assms by (simp add: eval_Suc logicalOr_loop_body_def match_hit)

lemma logicalAnd_loop_stop:
  assumes "current s < length (tokens s)" and "tok_type (tokens s ! current s) \<noteq> TOKEN_AND"
  shows "logicalAnd_loop (eval (Suc n)) left s = Ok (left, s)"
  using assms by (simp add: eval_Suc logicalAnd_loop_body_def match_miss)

lemma logicalAnd_loop_round:
  assumes "current s < length (tokens s)" and "tok_type (tokens s ! current s) = TOKEN_AND"
    and "comparison (eval n) (s\<lparr>current := current s + 1\<rparr>) = Ok (right, s')"
  shows "logicalAnd_loop (eval (Suc n)) left s =
    logicalAnd_loop (eval n) (BOOL (toBool left \<and> toBool right)) s'"
  using assms by (simp add: eval_Suc logicalAnd_loop_body_def match_hit)

lemma logicalOr_both:
  assumes left: "logicalAnd (eval (Suc n)) s = Ok (left, s1)"
    and op: "current s1 < length (tokens s1)" "tok_type (tokens s1 ! current s1) = TOKEN_OR"
    and right: "logicalAnd (eval n) (s1\<lparr>current := current s1 + 1\<rparr>) = Ok (right, s2)"
    and stop: "current s2 < length (tokens s2)" "tok_type (tokens s2 ! current s2) \<noteq> TOKEN_OR"
  shows "logicalOr (eval (Suc (Suc n))) s = Ok (BOOL (toBool left \<or> toBool right), s2)"
proof -
  from right obtain m where n: "n = Suc m"
    using eval_Ok_fuel(3) gr0_implies_Suc by blast
  have "logicalOr (eval (Suc (Suc n))) s = logicalOr_loop (eval (Suc n)) left s1"
    using left by (simp add: eval_Suc logicalOr_body_def)
  also have "\<dots> = logicalOr_loop (eval n) (BOOL (toBool left \<or> toBool right)) s2"
    using op right by (rule logicalOr_loop_round)
  also have "\<dots> = Ok (BOOL (toBool left \<or> toBool right), s2)"
    unfolding n using stop by (rule logicalOr_loop_stop)
  finally show ?thesis .
qed

lemma logicalAnd_both:
  assumes left: "comparison (eval (Suc n)) s = Ok (left, s1)"
    and op: "current s1 < length (tokens s1)" "tok_type (tokens s1 ! current s1) = TOKEN_AND"
    and right: "comparison (eval n) (s1\<lparr>current := current s1 + 1\<rparr>) = Ok (right, s2)"
    and stop: "current s2 < length (tokens s2)" "tok_type (tokens s2 ! current s2) \<noteq> TOKEN_AND"
  shows "logicalAnd (eval (Suc (Suc n))) s = Ok (BOOL (toBool left \<and> toBool right), s2)"
proof -
  from right obtain m where n: "n = Suc m"
    using eval_Ok_fuel(4) gr0_implies_Suc by blast
  have "logicalAnd (eval (Suc (Suc n))) s = logicalAnd_loop (eval (Suc n)) left s1"
    using left by (simp add: eval_Suc logicalAnd_body_def)
  also have "\<dots> = logicalAnd_loop (eval n) (BOOL (toBool left \<and> toBool right)) s2"
    using op right by (rule logicalAnd_loop_round)
  also have "\<dots> = Ok (BOOL (toBool left \<and> toBool right), s2)"
    unfolding n using stop by (rule logicalAnd_loop_stop)
  finally show ?thesis .
qed

text \<open>Claim C10: \<^verbatim>\<open>||\<close> and \<^verbatim>\<open>&&\<close> evaluate both operands, whatever the left one is. When
  the left operand of \<^verbatim>\<open>a || b\<close> evaluates to \<open>left\<close> (which may be the Bool true) and the
  right operand, evaluated next, gives \<open>right\<close> and the state \<open>s2\<close>, then the expression
  gives the Bool \<open>toBool left \<or> toBool right\<close> in the state \<open>s2\<close>: every effect of
  evaluating \<open>b\<close> has taken place. The same holds for \<^verbatim>\<open>a && b\<close>, also when \<open>left\<close> is the
  Bool false.\<close>

theorem logical_operators_evaluate_both:
  "(logicalAnd (eval (Suc n)) s = Ok (left, s1) \<and> current s1 < length (tokens s1)
      \<and> tok_type (tokens s1 ! current s1) = TOKEN_OR
      \<and> logicalAnd (eval n) (s1\<lparr>current := current s1 + 1\<rparr>) = Ok (right, s2)
      \<and> current s2 < length (tokens s2) \<and> tok_type (tokens s2 ! current s2) \<noteq> TOKEN_OR
    \<longrightarrow> logicalOr (eval (Suc (Suc n))) s = Ok (BOOL (toBool left \<or> toBool right), s2))
   \<and>
   (comparison (eval (Suc n)) s = Ok (left, s1) \<and> current s1 < length (tokens s1)
      \<and> tok_type (tokens s1 ! current s1) = TOKEN_AND
      \<and> comparison (eval n) (s1\<lparr>current := current s1 + 1\<rparr>) = Ok (right, s2)
      \<and> current s2 < length (tokens s2) \<and> tok_type (tokens s2 ! current s2) \<noteq> TOKEN_AND
    \<longrightarrow> logicalAnd (eval (Suc (Suc n))) s = Ok (BOOL (toBool left \<and> toBool right), s2))"
  using logicalOr_both [of n s left s1 right s2] logicalAnd_both [of n s left s1 right s2]
  by blast

lemma or_program_tokens:
  "tokenize or_program = map (\<lambda>(ty, v). mkToken ty v 1)
     [(TOKEN_FN, ''fn''), (TOKEN_IDENTIFIER, ''f''), (TOKEN_LPAREN, ''(''), (TOKEN_RPAREN, '')''),
      (TOKEN_LBRACE, ''{''), (TOKEN_PUTS, ''puts''), (TOKEN_NUMBER, ''1''), (TOKEN_RETURN, ''return''),
      (TOKEN_FALSE, ''false''), (TOKEN_RBRACE, ''}''), (TOKEN_TRUE, ''true''), (TOKEN_OR, ''||''),
      (TOKEN_IDENTIFIER, ''f''), (TOKEN_LPAREN, ''(''), (TOKEN_RPAREN, '')''), (TOKEN_EOF, [])]"
  unfolding or_program_def by code_simp

lemma and_program_tokens:
  "tokenize and_program = map (\<lambda>(ty, v). mkToken ty v 1)
     [(TOKEN_FN, ''fn''), (TOKEN_IDENTIFIER, ''f''), (TOKEN_LPAREN, ''(''), (TOKEN_RPAREN, '')''),
      (TOKEN_LBRACE, ''{''), (TOKEN_PUTS, ''puts''), (TOKEN_NUMBER, ''1''), (TOKEN_RETURN, ''return''),
      (TOKEN_TRUE, ''true''), (TOKEN_RBRACE, ''}''), (TOKEN_FALSE, ''false''), (TOKEN_AND, ''&&''),
      (TOKEN_IDENTIFIER, ''f''), (TOKEN_LPAREN, ''(''), (TOKEN_RPAREN, '')''), (TOKEN_EOF, [])]"
  unfolding and_program_def by code_simp

lemma or_program_declared:
  "statement (eval 3) (Interpreter_init (tokenize or_program)) = Ok ((), after_declaration or_program)"
  by (simp add: after_declaration_def or_program_tokens exec_simps)

lemma and_program_declared:
  "statement (eval 3) (Interpreter_init (tokenize and_program)) = Ok ((), after_declaration and_program)"
  by (simp add: after_declaration_def and_program_tokens exec_simps)

text \<open>The witness: in \<^verbatim>\<open>true || f()\<close> and in \<^verbatim>\<open>false && f()\<close> the function \<^verbatim>\<open>f\<close> is called
  and its \<^verbatim>\<open>puts 1\<close> is in the output, although the left operand decides the result.\<close>

theorem logical_operators_evaluate_both_witness:
  "logicalOr (eval 32) (after_declaration or_program) =
     Ok (BOOL True, (after_declaration or_program)
           \<lparr>current := 15, returnValue := BOOL False, stdout := [''1'']\<rparr>)
   \<and> logicalAnd (eval 32) (after_declaration and_program) =
     Ok (BOOL False, (after_declaration and_program)
           \<lparr>current := 15, returnValue := BOOL True, stdout := [''1'']\<rparr>)"
proof -
  let ?s = "after_declaration or_program"
  let ?s2 = "?s\<lparr>current := 15, returnValue := BOOL False, stdout := [''1'']\<rparr>"
  have l1: "logicalAnd (eval (Suc 30)) ?s = Ok (BOOL True, ?s\<lparr>current := 11\<rparr>)"
    by (simp add: after_declaration_def or_program_tokens exec_simps)
  have r1: "logicalAnd (eval 30) (?s\<lparr>current := 11\<rparr>\<lparr>current := current (?s\<lparr>current := 11\<rparr>) + 1\<rparr>)
      = Ok (BOOL False, ?s2)"
    by (simp add: after_declaration_def or_program_tokens exec_simps)
  have c1: "current (?s\<lparr>current := 11\<rparr>) < length (tokens (?s\<lparr>current := 11\<rparr>))"
    "tok_type (tokens (?s\<lparr>current := 11\<rparr>) ! current (?s\<lparr>current := 11\<rparr>)) = TOKEN_OR"
    "current ?s2 < length (tokens ?s2)" "tok_type (tokens ?s2 ! current ?s2) \<noteq> TOKEN_OR"
    by (simp_all add: after_declaration_def or_program_tokens exec_simps)
  let ?t = "after_declaration and_program"
  let ?t2 = "?t\<lparr>current := 15, returnValue := BOOL True, stdout := [''1'']\<rparr>"
  have l2: "comparison (eval (Suc 30)) ?t = Ok (BOOL False, ?t\<lparr>current := 11\<rparr>)"
    by (simp add: after_declaration_def and_program_tokens exec_simps)
  have r2: "comparison (eval 30) (?t\<lparr>current := 11\<rparr>\<lparr>current := current (?t\<lparr>current := 11\<rparr>) + 1\<rparr>)
      = Ok (BOOL True, ?t2)"
    by (simp add: after_declaration_def and_program_tokens exec_simps)
  have c2: "current (?t\<lparr>current := 11\<rparr>) < length (tokens (?t\<lparr>current := 11\<rparr>))"
    "tok_type (tokens (?t\<lparr>current := 11\<rparr>) ! current (?t\<lparr>current := 11\<rparr>)) = TOKEN_AND"
    "current ?t2 < length (tokens ?t2)" "tok_type (tokens ?t2 ! current ?t2) \<noteq> TOKEN_AND"
    by (simp_all add: after_declaration_def and_program_tokens exec_simps)
  have "logicalOr (eval (Suc (Suc 30))) ?s = Ok (BOOL (toBool (BOOL True) \<or> toBool (BOOL False)), ?s2)"
    using logical_operators_evaluate_both [of 30 ?s "BOOL True" "?s\<lparr>current := 11\<rparr>" "BOOL False" ?s2]
      l1 r1 c1 by blast
  moreover
  have "logicalAnd (eval (Suc (Suc 30))) ?t = Ok (BOOL (toBool (BOOL False) \<and> toBool (BOOL True)), ?t2)"
    using logical_operators_evaluate_both [of 30 ?t "BOOL False" "?t\<lparr>current := 11\<rparr>" "BOOL True" ?t2]
      l2 r2 c2 by blast
  ultimately show ?thesis by (simp add: toBool_def)
qed

end
